theory Spec2Isabelle
  imports Main "HOL-Library.AList"
begin

section \<open>JavaScript values and plain objects\<close>

text \<open>
  The comparison engine of \<^verbatim>\<open>CompareEnv\<close> works on plain JavaScript objects.
  A value that can sit in a flattened configuration object is a primitive. The numbers
  are the integral ones and \<^verbatim>\<open>NaN\<close>; the other numbers behave under the strict
  comparison as the integral ones do and are left out.

  A parsed YAML document is a finite tree of primitives, sequences, mappings and dates
  (the object that the parser builds for a timestamp, which has no enumerable
  property). A document in which an alias points to one of its own ancestors is cyclic
  and is not a value of this type: on it \<^verbatim>\<open>flattenObj\<close> recurses until the call
  stack is exhausted.
\<close>

datatype jsprim = Undefined | Null | Bool bool | Num int | NaN | Str string

datatype jsval = Prim jsprim | Arr "jsval list" | Obj "(string \<times> jsval) list" | DateObject

text \<open>
  A plain object made by \<^verbatim>\<open>{}\<close> has its own properties, here in the order in which
  they were first written, and a prototype: \<^verbatim>\<open>Object.prototype\<close> until a write of
  \<^verbatim>\<open>null\<close> under the key \<^verbatim>\<open>__proto__\<close> takes it away. \<^verbatim>\<open>Object.keys(o)\<close> lists
  the own keys; JavaScript lists integer-like keys before the others, so for an object
  that holds such keys the order of the list can differ, its elements cannot.
\<close>

datatype prototype = ObjectPrototype | NullPrototype

record 'v object =
  own :: "(string \<times> 'v) list"
  proto :: prototype

definition emptyObject :: "'v object" where
  "emptyObject = \<lparr> own = [], proto = ObjectPrototype \<rparr>"

definition ownKeys :: "(string \<times> 'v) list \<Rightarrow> string list" where
  "ownKeys ps = map fst ps"

definition Object_keys :: "'v object \<Rightarrow> string list" where
  "Object_keys obj = ownKeys (own obj)"

text \<open>
  \<^verbatim>\<open>o[k]\<close> reads the own property \<^verbatim>\<open>k\<close> when there is one. Otherwise, with
  \<^verbatim>\<open>Object.prototype\<close> as prototype, the names of the members of that prototype give
  the inherited member (a function, or the prototype itself for \<^verbatim>\<open>__proto__\<close>), and
  every other name gives \<^verbatim>\<open>undefined\<close>. What a read gives is therefore a primitive or
  a member of \<^verbatim>\<open>Object.prototype\<close>, named by its key.
\<close>

definition objectPrototypeMembers :: "string list" where
  "objectPrototypeMembers =
     [''constructor'', ''__defineGetter__'', ''__defineSetter__'', ''hasOwnProperty'',
      ''__lookupGetter__'', ''__lookupSetter__'', ''isPrototypeOf'', ''propertyIsEnumerable'',
      ''toString'', ''valueOf'', ''__proto__'', ''toLocaleString'']"

datatype jsread = Val jsprim | Member string

definition get_prop :: "jsprim object \<Rightarrow> string \<Rightarrow> jsread" where
  "get_prop obj key =
     (case map_of (own obj) key of
        Some v \<Rightarrow> Val v
      | None \<Rightarrow>
          if proto obj = ObjectPrototype \<and> key \<in> set objectPrototypeMembers
          then Member key else Val Undefined)"

text \<open>
  \<^verbatim>\<open>o[k] = v\<close> for a primitive \<^verbatim>\<open>v\<close>. The key \<^verbatim>\<open>__proto__\<close>, when it is not an own
  property and \<^verbatim>\<open>Object.prototype\<close> is the prototype, reaches the setter of that
  prototype: \<^verbatim>\<open>null\<close> takes the prototype away, any other primitive is ignored, and no
  property is stored. Every other write overwrites the own property in place or
  appends it.
\<close>

definition set_prop :: "jsprim object \<Rightarrow> string \<Rightarrow> jsprim \<Rightarrow> jsprim object" where
  "set_prop obj key v =
     (if key = ''__proto__'' \<and> key \<notin> set (Object_keys obj) \<and> proto obj = ObjectPrototype
      then (if v = Null then obj\<lparr>proto := NullPrototype\<rparr> else obj)
      else obj\<lparr>own := AList.update key v (own obj)\<rparr>)"

text \<open>
  The strict comparison \<^verbatim>\<open>===\<close> of two values that were read: equality, except that
  \<^verbatim>\<open>NaN\<close> is not equal to itself. No value is converted: a number and a string
  are never equal.
\<close>

fun strictEquals :: "jsread \<Rightarrow> jsread \<Rightarrow> bool" where
  "strictEquals (Val p) (Val q) = (p \<noteq> NaN \<and> p = q)"
| "strictEquals (Member m) (Member n) = (m = n)"
| "strictEquals x y = False"

text \<open>
  \<^verbatim>\<open>new Set(array)\<close> keeps the first occurrence of every element, in insertion
  order; \<^verbatim>\<open>has\<close> is membership.
\<close>

definition Set_add :: "'a \<Rightarrow> 'a list \<Rightarrow> 'a list" where
  "Set_add x s = (if x \<in> set s then s else s @ [x])"

definition Set_new :: "'a list \<Rightarrow> 'a list" where
  "Set_new xs = fold Set_add xs []"

definition Set_has :: "'a list \<Rightarrow> 'a \<Rightarrow> bool" where
  "Set_has s x = (x \<in> set s)"

section \<open>The differ\<close>

record CompareConfigKeysRecord =
  missingKeysInFirstConfigFile :: "string list"
  missingKeysInSecondConfigFile :: "string list"

definition compareEnvKeys :: "string list \<Rightarrow> string list \<Rightarrow> CompareConfigKeysRecord" where
  "compareEnvKeys firstConfigObjectArray secondConfigObjectArray =
     (let set1 = Set_new firstConfigObjectArray;
          set2 = Set_new secondConfigObjectArray
      in \<lparr> missingKeysInFirstConfigFile =
             filter (\<lambda>item. \<not> Set_has set1 item) secondConfigObjectArray,
           missingKeysInSecondConfigFile =
             filter (\<lambda>item. \<not> Set_has set2 item) firstConfigObjectArray \<rparr>)"

text \<open>
  \<^verbatim>\<open>getValueDifferences\<close> reads the two file names from \<^verbatim>\<open>this\<close>; here they are
  the first two arguments. The object literal with the two computed keys defines its
  two properties one after the other, so equal file names leave one property; it is
  held as the list of its own properties.

  The object \<^verbatim>\<open>differences\<close> starts as \<^verbatim>\<open>{}\<close>, is written once for each key and is
  only read through its own properties, so it is held as the list of these. A write
  under the key \<^verbatim>\<open>__proto__\<close> reaches the setter of \<^verbatim>\<open>Object.prototype\<close> with an
  object: it replaces the prototype of \<^verbatim>\<open>differences\<close> and stores no property.
\<close>

type_synonym valuePairObject = "(string \<times> jsread) list"

definition valuePair :: "string \<Rightarrow> string \<Rightarrow> jsread \<Rightarrow> jsread \<Rightarrow> valuePairObject" where
  "valuePair firstConfigFile secondConfigFile value1 value2 =
     AList.update secondConfigFile value2 (AList.update firstConfigFile value1 [])"

definition set_difference ::
  "(string \<times> valuePairObject) list \<Rightarrow> string \<Rightarrow> valuePairObject
     \<Rightarrow> (string \<times> valuePairObject) list" where
  "set_difference differences key pair =
     (if key = ''__proto__'' then differences else AList.update key pair differences)"

definition getValueDifferences ::
  "string \<Rightarrow> string \<Rightarrow> jsprim object \<Rightarrow> jsprim object \<Rightarrow> (string \<times> valuePairObject) list" where
  "getValueDifferences firstConfigFile secondConfigFile firstConfigObject secondConfigObject =
     (let allKeys = Set_new (Object_keys firstConfigObject @ Object_keys secondConfigObject)
      in fold (\<lambda>key differences.
            let value1 = get_prop firstConfigObject key;
                value2 = get_prop secondConfigObject key
            in if value1 \<noteq> Val Undefined \<and> value2 \<noteq> Val Undefined
                  \<and> \<not> strictEquals value1 value2
               then set_difference differences key
                      (valuePair firstConfigFile secondConfigFile value1 value2)
               else differences)
          allKeys [])"

section \<open>The parser: flattening a nested document\<close>

text \<open>
  Array indices are property names, written in decimal.
\<close>

definition digit_char :: "nat \<Rightarrow> char" where
  "digit_char d = char_of (48 + d)"

fun show_nat :: "nat \<Rightarrow> string" where
  "show_nat n = (if n < 10 then [digit_char n] else show_nat (n div 10) @ [digit_char (n mod 10)])"

declare show_nat.simps [simp del]


text \<open>
  \<^verbatim>\<open>for (const key in obj)\<close> with \<^verbatim>\<open>obj[key]\<close>: the entries of a mapping, the
  elements of a sequence under their indices, the characters of a string under their
  indices, and nothing for the other primitives (\<^verbatim>\<open>yaml.load\<close> returns a scalar
  for a document that is one), nor for a date. The list of a mapping is taken to be in
  the order in which JavaScript enumerates it.
\<close>

fun for_in :: "jsval \<Rightarrow> (string \<times> jsval) list" where
  "for_in (Obj kvs) = kvs"
| "for_in (Arr vs) = zip (map show_nat [0..<length vs]) vs"
| "for_in (Prim (Str s)) = zip (map show_nat [0..<length s]) (map (\<lambda>c. Prim (Str [c])) s)"
| "for_in (Prim p) = []"
| "for_in DateObject = []"

fun typeof :: "jsval \<Rightarrow> string" where
  "typeof (Prim Undefined) = ''undefined''"
| "typeof (Prim Null) = ''object''"
| "typeof (Prim (Bool b)) = ''boolean''"
| "typeof (Prim (Num n)) = ''number''"
| "typeof (Prim NaN) = ''number''"
| "typeof (Prim (Str s)) = ''string''"
| "typeof (Arr vs) = ''object''"
| "typeof (Obj kvs) = ''object''"
| "typeof DateObject = ''object''"

fun the_prim :: "jsval \<Rightarrow> jsprim" where
  "the_prim (Prim p) = p"
| "the_prim v = Undefined"

text \<open>
  \<^verbatim>\<open>Object.assign(target, source)\<close> writes every own property of the source to the
  target, as \<^verbatim>\<open>target[k] = v\<close> does.
\<close>

definition writeAll :: "jsprim object \<Rightarrow> (string \<times> jsprim) list \<Rightarrow> jsprim object" where
  "writeAll target ps = fold (\<lambda>(k, v) t. set_prop t k v) ps target"

definition Object_assign :: "jsprim object \<Rightarrow> jsprim object \<Rightarrow> jsprim object" where
  "Object_assign target source = writeAll target (own source)"

definition joinKey :: "string \<Rightarrow> string \<Rightarrow> string \<Rightarrow> string" where
  "joinKey parentKey sep key = (if parentKey \<noteq> [] then parentKey @ sep @ key else key)"

text \<open>
  The loop of \<^verbatim>\<open>flattenObj\<close> over the entries still to visit, with the object
  \<^verbatim>\<open>result\<close> built so far. The recursive call
  \<^verbatim>\<open>this.flattenObj(obj[key], newKey, sep)\<close> is the loop over the entries of
  \<^verbatim>\<open>obj[key]\<close>, started with the empty object. In the other branch the value is a
  primitive, which \<open>the_prim\<close> unwraps.
\<close>

function flattenLoop ::
  "(string \<times> jsval) list \<Rightarrow> string \<Rightarrow> string \<Rightarrow> jsprim object \<Rightarrow> jsprim object" where
  "flattenLoop [] parentKey sep result = result"
| "flattenLoop ((key, v) # rest) parentKey sep result =
     (let newKey = joinKey parentKey sep key
      in flattenLoop rest parentKey sep
           (if typeof v = ''object'' \<and> v \<noteq> Prim Null
            then Object_assign result (flattenLoop (for_in v) newKey sep emptyObject)
            else set_prop result newKey (the_prim v)))"
  by pat_completeness auto
termination
proof (relation "measure (\<lambda>(entries, parentKey, sep, result). size_list (\<lambda>e. size (snd e)) entries)")
  show "wf (measure (\<lambda>(entries, parentKey, sep, result). size_list (\<lambda>e. size (snd e)) entries))"
    by simp
next
  fix key :: string and v rest and parentKey sep :: string and result :: "jsprim object" and x
  assume "typeof v = ''object'' \<and> v \<noteq> Prim Null"
  have zip_size: "length ks = length vs \<Longrightarrow>
      size_list (\<lambda>e. size (snd e)) (zip ks vs) = size_list size vs"
    for ks :: "string list" and vs :: "jsval list"
    by (induction ks vs rule: list_induct2) simp_all
  have "size_list (\<lambda>e. size (snd e)) (for_in v) \<le> size v"
  proof (cases v)
    case (Prim p)
    with \<open>typeof v = ''object'' \<and> v \<noteq> Prim Null\<close> show ?thesis
      by (cases p) simp_all
  next
    case (Arr vs)
    then show ?thesis by (simp add: zip_size)
  next
    case (Obj kvs)
    have "size_list (\<lambda>e. size (snd e)) kvs \<le> size_list (size_prod (\<lambda>_. 0) size) kvs"
      by (induction kvs) auto
    with Obj show ?thesis by simp
  next
    case DateObject
    then show ?thesis by simp
  qed
  then show "((for_in v, x, sep, emptyObject), (key, v) # rest, parentKey, sep, result)
      \<in> measure (\<lambda>(entries, parentKey, sep, result). size_list (\<lambda>e. size (snd e)) entries)"
    by simp
qed simp

definition flattenObj :: "jsval \<Rightarrow> string \<Rightarrow> string \<Rightarrow> jsprim object" where
  "flattenObj obj parentKey sep = flattenLoop (for_in obj) parentKey sep emptyObject"

section \<open>Leaves and dot-joined paths\<close>

text \<open>
  The vocabulary of the statements about flattening. A nested value is a mapping, a
  sequence or a date: what the test \<^verbatim>\<open>typeof v === 'object' && v !== null\<close>
  accepts. The leaves of a document are its primitive values, each with the path of
  mapping keys and sequence indices that leads to it. A path is dot-joined by writing
  its components with a dot between them.
\<close>

definition isNested :: "jsval \<Rightarrow> bool" where
  "isNested v \<longleftrightarrow> typeof v = ''object'' \<and> v \<noteq> Prim Null"

fun leaves :: "jsval \<Rightarrow> (string list \<times> jsprim) list" where
  "leaves (Prim p) = [([], p)]"
| "leaves (Arr vs) =
     concat (map (\<lambda>(i, ls). map (\<lambda>(path, p). (show_nat i # path, p)) ls)
                 (zip [0..<length vs] (map leaves vs)))"
| "leaves (Obj kvs) =
     concat (map (\<lambda>(key, child). map (\<lambda>(path, p). (key # path, p)) (leaves child)) kvs)"
| "leaves DateObject = []"

fun dotted :: "string list \<Rightarrow> string" where
  "dotted [] = []"
| "dotted [key] = key"
| "dotted (key # path) = key @ ''.'' @ dotted path"

text \<open>
  The keys of every mapping of a document are pairwise distinct, as in any object;
  they are plain when, in addition, none is empty and none contains a dot.
\<close>

fun plainKeys :: "jsval \<Rightarrow> bool" where
  "plainKeys (Prim p) = True"
| "plainKeys (Arr vs) = (\<forall>v \<in> set vs. plainKeys v)"
| "plainKeys (Obj kvs) =
     (distinct (map fst kvs)
      \<and> (\<forall>(key, child) \<in> set kvs. key \<noteq> [] \<and> CHR ''.'' \<notin> set key \<and> plainKeys child))"
| "plainKeys DateObject = True"

text \<open>
  The same notions on the entries that the loop visits.
\<close>

definition entryLeaves :: "(string \<times> jsval) list \<Rightarrow> (string list \<times> jsprim) list" where
  "entryLeaves es =
     concat (map (\<lambda>(key, child). map (\<lambda>(path, p). (key # path, p)) (leaves child)) es)"

definition plainEntries :: "(string \<times> jsval) list \<Rightarrow> bool" where
  "plainEntries es \<longleftrightarrow>
     distinct (map fst es)
     \<and> (\<forall>(key, child) \<in> set es. key \<noteq> [] \<and> CHR ''.'' \<notin> set key \<and> plainKeys child)"

definition plainPath :: "string list \<Rightarrow> bool" where
  "plainPath path \<longleftrightarrow> (\<forall>key \<in> set path. key \<noteq> [] \<and> CHR ''.'' \<notin> set key)"

definition flatKeys :: "string \<Rightarrow> (string list \<times> jsprim) list \<Rightarrow> (string \<times> jsprim) list" where
  "flatKeys parentKey ls = map (\<lambda>(path, p). (joinKey parentKey ''.'' (dotted path), p)) ls"

section \<open>Paths, files and the two parsing libraries\<close>

text \<open>
  \<^verbatim>\<open>path.extname\<close> of Node.js on POSIX paths: the part of the last path component
  from its last dot on; empty when that component has no dot, when its only dot is its
  first character, or when it is \<^verbatim>\<open>..\<close>. Trailing slashes are ignored.
\<close>

definition basename_part :: "string \<Rightarrow> string" where
  "basename_part p =
     rev (takeWhile (\<lambda>c. c \<noteq> CHR ''/'') (dropWhile (\<lambda>c. c = CHR ''/'') (rev p)))"

definition extname :: "string \<Rightarrow> string" where
  "extname p =
     (let base = basename_part p;
          ext = rev (takeWhile (\<lambda>c. c \<noteq> CHR ''.'') (rev base))
      in if CHR ''.'' \<notin> set base \<or> length base = length ext + 1 \<or> base = ''..''
         then [] else CHR ''.'' # ext)"

text \<open>
  What the run reads from its surroundings: the resolution of a path against the
  working directory, the file system, and the two parsers. \<^verbatim>\<open>readFileSync\<close> and
  \<^verbatim>\<open>yaml.load\<close> can throw (\<open>Inl\<close>, holding the text the thrown error prints
  as); \<^verbatim>\<open>dotenv.parse\<close> never throws and skips the lines it cannot read: it gives
  the own properties of the plain object that it returns.
\<close>

record world =
  path_resolve :: "string \<Rightarrow> string"
  fs_existsSync :: "string \<Rightarrow> bool"
  fs_readFileSync :: "string \<Rightarrow> string + string"
  dotenv_parse :: "string \<Rightarrow> (string \<times> string) list"
  yaml_load :: "string \<Rightarrow> string + jsval"

text \<open>
  The three exception classes of the program with their \<^verbatim>\<open>getMessage\<close>, and every
  other thrown value, held as the text that it prints as in a template literal;
  \<open>getMessage\<close> is extended to such a value by that text.
\<close>

datatype exn =
    FileCompareError
  | FileNotFoundError string
  | UnsupportedFileTypeError string
  | OtherError string

fun getMessage :: "exn \<Rightarrow> string" where
  "getMessage FileCompareError = ''FileCompareError: Cannot compare dissimilar file''"
| "getMessage (FileNotFoundError filePath) =
     ''FileNotFoundError: File Not Found - File: '' @ filePath"
| "getMessage (UnsupportedFileTypeError ext) =
     ''UnsupportedFileTypeError: Unsupported File type - Type: '' @ ext"
| "getMessage (OtherError msg) = msg"

text \<open>
  What a run does, in order: the file system and parser calls, the lines written to
  the console (colours left out), the calls of the two report printers with their
  argument, and \<^verbatim>\<open>process.exit\<close>.
\<close>

datatype effect =
    ExistsSync string
  | ReadFileSync string
  | DotenvParse string
  | YamlLoad string
  | ConsoleLog string
  | ConsoleError string
  | PrintKeyDifferences CompareConfigKeysRecord
  | PrintValueDifferences "(string \<times> valuePairObject) list"
  | ProcessExit nat

type_synonym 'a io = "effect list \<times> (exn + 'a)"

record ConfigOptions =
  keys_flag :: bool
  values_flag :: bool

text \<open>
  The console line of the value mode when there is no difference, and the effects that
  are output of a comparison mode or of the run at all.
\<close>

definition noValueDifferencesMessage :: string where
  "noValueDifferencesMessage =
     CHR 0x0A # '' No value differences found between the two files.'' @ [CHR 0x0A]"

fun isValueModeOutput :: "effect \<Rightarrow> bool" where
  "isValueModeOutput (PrintValueDifferences d) = True"
| "isValueModeOutput (ConsoleLog line) = (line = noValueDifferencesMessage)"
| "isValueModeOutput e = False"

fun isKeyModeOutput :: "effect \<Rightarrow> bool" where
  "isKeyModeOutput (PrintKeyDifferences r) = True"
| "isKeyModeOutput e = False"

fun isOutput :: "effect \<Rightarrow> bool" where
  "isOutput (ExistsSync p) = False"
| "isOutput (ReadFileSync p) = False"
| "isOutput (DotenvParse c) = False"
| "isOutput (YamlLoad c) = False"
| "isOutput e = True"

section \<open>The comparison run\<close>

definition checkIfBothFilesAreOfSameType :: "string \<Rightarrow> string \<Rightarrow> exn + unit" where
  "checkIfBothFilesAreOfSameType fileOne fileTwo =
     (let fileOneExtName = extname fileOne;
          fileTwoExtName = extname fileTwo
      in if fileOneExtName \<noteq> fileTwoExtName then Inl FileCompareError else Inr ())"

definition validateAndReturnResolvedFilePath :: "world \<Rightarrow> string \<Rightarrow> (string \<times> string) io" where
  "validateAndReturnResolvedFilePath w configFilePath =
     (let resolvedPath = path_resolve w configFilePath
      in if \<not> fs_existsSync w resolvedPath
         then ([ExistsSync resolvedPath], Inl (FileNotFoundError resolvedPath))
         else let ext = extname resolvedPath
              in if ext \<noteq> ''.env'' \<and> ext \<noteq> ''.yaml'' \<and> ext \<noteq> ''.yml''
                 then ([ExistsSync resolvedPath], Inl (UnsupportedFileTypeError ext))
                 else ([ExistsSync resolvedPath], Inr (resolvedPath, ext)))"

definition parseFile :: "world \<Rightarrow> string \<Rightarrow> (jsprim object) io" where
  "parseFile w filePath =
     (case validateAndReturnResolvedFilePath w filePath of
        (t, Inl e) \<Rightarrow> (t, Inl e)
      | (t, Inr (resolvedPath, ext)) \<Rightarrow>
          (case fs_readFileSync w resolvedPath of
             Inl msg \<Rightarrow> (t @ [ReadFileSync resolvedPath], Inl (OtherError msg))
           | Inr content \<Rightarrow>
               if ext = ''.env''
               then (t @ [ReadFileSync resolvedPath, DotenvParse content],
                     Inr \<lparr> own = map (\<lambda>(k, v). (k, Str v)) (dotenv_parse w content),
                           proto = ObjectPrototype \<rparr>)
               else (case yaml_load w content of
                       Inl msg \<Rightarrow>
                         (t @ [ReadFileSync resolvedPath, YamlLoad content], Inl (OtherError msg))
                     | Inr doc \<Rightarrow>
                         (t @ [ReadFileSync resolvedPath, YamlLoad content],
                          Inr (flattenObj doc [] ''.'')))))"

definition isEmpty :: "'v object \<Rightarrow> bool" where
  "isEmpty obj = (length (Object_keys obj) = 0)"

definition checkIfAnyEnvironmentObjectIsEmpty ::
  "string \<Rightarrow> string \<Rightarrow> jsprim object \<Rightarrow> jsprim object \<Rightarrow> effect list" where
  "checkIfAnyEnvironmentObjectIsEmpty firstConfigFile secondConfigFile
       firstConfigObject secondConfigObject =
     (if isEmpty firstConfigObject \<and> isEmpty secondConfigObject
      then [ConsoleLog ''Both config files are empty.'']
      else if isEmpty firstConfigObject
      then [ConsoleLog (''file '' @ firstConfigFile @ '' is empty.'')]
      else if isEmpty secondConfigObject
      then [ConsoleLog (''file '' @ secondConfigFile @ '' is empty.'')]
      else [])"

text \<open>
  The body of the \<^verbatim>\<open>try\<close> block of \<^verbatim>\<open>compare\<close>. The helper
  \<^verbatim>\<open>checkIfAnyEnvironmentObjectIsEmpty\<close> returns to it whatever it printed, and
  the body goes on.
\<close>

definition compareBody :: "world \<Rightarrow> string \<Rightarrow> string \<Rightarrow> ConfigOptions \<Rightarrow> unit io" where
  "compareBody w firstConfigFile secondConfigFile options =
     (case checkIfBothFilesAreOfSameType firstConfigFile secondConfigFile of
        Inl e \<Rightarrow> ([], Inl e)
      | Inr u \<Rightarrow>
     (case parseFile w firstConfigFile of
        (t1, Inl e) \<Rightarrow> (t1, Inl e)
      | (t1, Inr firstConfigObject) \<Rightarrow>
     (case parseFile w secondConfigFile of
        (t2, Inl e) \<Rightarrow> (t1 @ t2, Inl e)
      | (t2, Inr secondConfigObject) \<Rightarrow>
     (let t3 = checkIfAnyEnvironmentObjectIsEmpty firstConfigFile secondConfigFile
                 firstConfigObject secondConfigObject;
          firstConfigObjectKeys = Object_keys firstConfigObject;
          secondConfigObjectKeys = Object_keys secondConfigObject
      in if keys_flag options
         then (let compareResult = compareEnvKeys firstConfigObjectKeys secondConfigObjectKeys
               in (t1 @ t2 @ t3 @ [PrintKeyDifferences compareResult], Inr ()))
         else if values_flag options
         then (let configDifferences =
                     getValueDifferences firstConfigFile secondConfigFile
                       firstConfigObject secondConfigObject
               in (t1 @ t2 @ t3 @
                     [if length (ownKeys configDifferences) > 0
                      then PrintValueDifferences configDifferences
                      else ConsoleLog noValueDifferencesMessage],
                   Inr ()))
         else (t1 @ t2 @ t3, Inr ())))))"

text \<open>
  The \<^verbatim>\<open>catch\<close> block: the three classes of the program are reported with
  their message, anything else as an unknown error; both end the process with
  code 1. A run that throws nothing returns, and the process ends with code 0.
\<close>

fun isKnownError :: "exn \<Rightarrow> bool" where
  "isKnownError (OtherError msg) = False"
| "isKnownError e = True"

definition compare :: "world \<Rightarrow> string \<Rightarrow> string \<Rightarrow> ConfigOptions \<Rightarrow> effect list" where
  "compare w firstConfigFile secondConfigFile options =
     (case compareBody w firstConfigFile secondConfigFile options of
        (t, Inr u) \<Rightarrow> t
      | (t, Inl e) \<Rightarrow>
          t @ [if isKnownError e
               then ConsoleError (''Something went wrong: ['' @ getMessage e @ '']'')
               else ConsoleError (''An unknown error occurred: ['' @ getMessage e @ '']''),
               ProcessExit 1])"

text \<open>
  What the chosen comparison mode prints for two parsed documents: the chain
  \<^verbatim>\<open>if (keys) ... else if (values) ...\<close> at the end of the \<^verbatim>\<open>try\<close> block.
\<close>

definition modeOutput ::
  "ConfigOptions \<Rightarrow> string \<Rightarrow> string \<Rightarrow> jsprim object \<Rightarrow> jsprim object \<Rightarrow> effect list" where
  "modeOutput options firstConfigFile secondConfigFile firstConfigObject secondConfigObject =
     (if keys_flag options
      then [PrintKeyDifferences
              (compareEnvKeys (Object_keys firstConfigObject) (Object_keys secondConfigObject))]
      else if values_flag options
      then (let configDifferences =
                  getValueDifferences firstConfigFile secondConfigFile
                    firstConfigObject secondConfigObject
            in [if length (ownKeys configDifferences) > 0
                then PrintValueDifferences configDifferences
                else ConsoleLog noValueDifferencesMessage])
      else [])"

fun exitCode :: "effect list \<Rightarrow> nat" where
  "exitCode [] = 0"
| "exitCode (ProcessExit n # t) = n"
| "exitCode (e # t) = exitCode t"

section \<open>A concrete directory\<close>

text \<open>
  A working directory \<^verbatim>\<open>/cwd\<close> with five files: \<^verbatim>\<open>a.env\<close> holding
  \<^verbatim>\<open>FOO=1\<close>, \<^verbatim>\<open>b.env\<close> holding \<^verbatim>\<open>FOO=2\<close>, the empty \<^verbatim>\<open>empty.env\<close>,
  \<^verbatim>\<open>a.yaml\<close> holding \<^verbatim>\<open>FOO: 1\<close> and \<^verbatim>\<open>broken.yaml\<close> holding the unclosed
  flow sequence \<^verbatim>\<open>FOO: [1\<close>. The two parsers are given on these texts.
\<close>

definition demo_files :: "(string \<times> string) list" where
  "demo_files =
     [(''/cwd/a.env'', ''FOO=1''), (''/cwd/b.env'', ''FOO=2''), (''/cwd/empty.env'', []),
      (''/cwd/a.yaml'', ''FOO: 1''), (''/cwd/broken.yaml'', ''FOO: [1'')]"

definition demo_world :: world where
  "demo_world =
     \<lparr> path_resolve = (\<lambda>p. ''/cwd/'' @ p),
       fs_existsSync = (\<lambda>p. p \<in> set (map fst demo_files)),
       fs_readFileSync = (\<lambda>p. case map_of demo_files p of
                                 Some content \<Rightarrow> Inr content
                               | None \<Rightarrow> Inl ''Error: ENOENT: no such file or directory''),
       dotenv_parse = (\<lambda>content. if content = ''FOO=1'' then [(''FOO'', ''1'')]
                                  else if content = ''FOO=2'' then [(''FOO'', ''2'')] else []),
       yaml_load = (\<lambda>content. if content = ''FOO: 1'' then Inr (Obj [(''FOO'', Prim (Num 1))])
                               else Inl ''YAMLException: unexpected end of the stream'') \<rparr>"

definition keys_only :: ConfigOptions where
  "keys_only = \<lparr> keys_flag = True, values_flag = False \<rparr>"

definition keys_and_values :: ConfigOptions where
  "keys_and_values = \<lparr> keys_flag = True, values_flag = True \<rparr>"

definition values_only :: ConfigOptions where
  "values_only = \<lparr> keys_flag = False, values_flag = True \<rparr>"

definition no_flags :: ConfigOptions where
  "no_flags = \<lparr> keys_flag = False, values_flag = False \<rparr>"

section \<open>Decimal numerals\<close>

lemma of_char_digit_char: "d < 10 \<Longrightarrow> (of_char (digit_char d) :: nat) = 48 + d"
  by (simp add: digit_char_def)

lemma digit_char_not_dot: "d < 10 \<Longrightarrow> digit_char d \<noteq> CHR ''.''"
proof
  assume "d < 10" and "digit_char d = CHR ''.''"
  then have "(of_char (digit_char d) :: nat) = of_char CHR ''.''" by simp
  with \<open>d < 10\<close> show False by (simp add: of_char_digit_char)
qed

lemma digit_char_inj:
  assumes "d < 10" and "e < 10" and "digit_char d = digit_char e"
  shows "d = e"
proof -
  have "(of_char (digit_char d) :: nat) = of_char (digit_char e)"
    by (rule arg_cong [OF assms(3)])
  then have "48 + d = 48 + e"
    by (simp only: of_char_digit_char [OF assms(1)] of_char_digit_char [OF assms(2)])
  then show ?thesis by simp
qed

lemma show_nat_not_Nil: "show_nat n \<noteq> []"
  by (subst show_nat.simps) simp

lemma show_nat_dot_free: "CHR ''.'' \<notin> set (show_nat n)"
proof (induction n rule: show_nat.induct)
  case (1 n)
  show ?case
  proof (cases "n < 10")
    case True
    then show ?thesis
      using digit_char_not_dot [of n] by (subst show_nat.simps) auto
  next
    case False
    then show ?thesis
      using "1" digit_char_not_dot [of "n mod 10"] by (subst show_nat.simps) auto
  qed
qed

lemma div_mod_10_eq:
  assumes "m div 10 = n div 10" and "m mod 10 = n mod 10"
  shows "m = (n::nat)"
proof -
  have "m = m div 10 * 10 + m mod 10" by simp
  also have "\<dots> = n div 10 * 10 + n mod 10" by (simp only: assms)
  also have "\<dots> = n" by simp
  finally show ?thesis .
qed

lemma show_nat_inj: "show_nat m = show_nat n \<Longrightarrow> m = n"
proof (induction m arbitrary: n rule: show_nat.induct)
  case (1 m n)
  show ?case
  proof (cases "m < 10")
    case m: True
    show ?thesis
    proof (cases "n < 10")
      case True
      with m "1.prems" have "digit_char m = digit_char n"
        by (simp add: show_nat.simps [of m] show_nat.simps [of n])
      with m True show ?thesis
        by (rule digit_char_inj)
    next
      case False
      with m "1.prems" show_nat_not_Nil [of "n div 10"] show ?thesis
        by (simp add: show_nat.simps [of m] show_nat.simps [of n])
    qed
  next
    case m: False
    show ?thesis
    proof (cases "n < 10")
      case True
      with m "1.prems" show_nat_not_Nil [of "m div 10"] show ?thesis
        by (simp add: show_nat.simps [of m] show_nat.simps [of n])
    next
      case False
      with m "1.prems" have "show_nat (m div 10) = show_nat (n div 10)"
        and "digit_char (m mod 10) = digit_char (n mod 10)"
        by (simp_all add: show_nat.simps [of m] show_nat.simps [of n])
      then have "m div 10 = n div 10" and "m mod 10 = n mod 10"
        using m "1.IH" [of "n div 10"] digit_char_inj [of "m mod 10" "n mod 10"]
        by simp_all
      then show ?thesis
        by (rule div_mod_10_eq)
    qed
  qed
qed

lemma digit_char_numerals:
  "digit_char 0 = CHR ''0''" "digit_char 1 = CHR ''1''" "digit_char 2 = CHR ''2''"
  "digit_char 3 = CHR ''3''" "digit_char 4 = CHR ''4''" "digit_char 5 = CHR ''5''"
  "digit_char 6 = CHR ''6''" "digit_char 7 = CHR ''7''" "digit_char 8 = CHR ''8''"
  "digit_char 9 = CHR ''9''"
  by code_simp+

lemma show_nat_values:
  "show_nat 0 = ''0''" "show_nat (Suc 0) = ''1''" "show_nat 1 = ''1''" "show_nat 2 = ''2''"
  by code_simp+

section \<open>Properties of the differ\<close>

lemma set_fold_Set_add: "set (fold Set_add xs s) = set xs \<union> set s"
  by (induction xs arbitrary: s) (auto simp: Set_add_def)

lemma set_Set_new [simp]: "set (Set_new xs) = set xs"
  by (simp add: Set_new_def set_fold_Set_add)

lemma Set_has_Set_new [simp]: "Set_has (Set_new xs) x \<longleftrightarrow> x \<in> set xs"
  by (simp add: Set_has_def)

subsection \<open>Key comparison\<close>

text \<open>
  C1. For key lists \<open>A\<close> and \<open>B\<close> without duplicates, \<^verbatim>\<open>compareEnvKeys\<close> returns
  as the keys missing in the first file exactly the keys of \<open>B\<close> that are not in
  \<open>A\<close>, and as the keys missing in the second file exactly the keys of \<open>A\<close> that
  are not in \<open>B\<close>, each once; comparing a list with itself gives two empty lists.
\<close>

theorem compareEnvKeys_exact:
  assumes "distinct A" and "distinct B"
  shows "set (missingKeysInFirstConfigFile (compareEnvKeys A B)) = set B - set A
       \<and> set (missingKeysInSecondConfigFile (compareEnvKeys A B)) = set A - set B
       \<and> distinct (missingKeysInFirstConfigFile (compareEnvKeys A B))
       \<and> distinct (missingKeysInSecondConfigFile (compareEnvKeys A B))
       \<and> compareEnvKeys A A =
           \<lparr> missingKeysInFirstConfigFile = [], missingKeysInSecondConfigFile = [] \<rparr>"
  using assms by (auto simp: compareEnvKeys_def Let_def)

theorem compareEnvKeys_exact_witness:
  "distinct [''FOO'', ''BAR''] \<and> distinct [''FOO'', ''BAZ'']
   \<and> set (missingKeysInFirstConfigFile
            (compareEnvKeys [''FOO'', ''BAR''] [''FOO'', ''BAZ''])) = {''BAZ''}
   \<and> set (missingKeysInSecondConfigFile
            (compareEnvKeys [''FOO'', ''BAR''] [''FOO'', ''BAZ''])) = {''BAR''}"
  using compareEnvKeys_exact [of "[''FOO'', ''BAR'']" "[''FOO'', ''BAZ'']"] by auto

subsection \<open>Value comparison\<close>



lemma get_prop_plain:
  "k \<notin> set objectPrototypeMembers \<Longrightarrow> k \<notin> set (Object_keys A) \<Longrightarrow> get_prop A k = Val Undefined"
  using map_of_eq_None_iff [of "own A" k] by (simp add: get_prop_def Object_keys_def ownKeys_def)














section \<open>Properties of flattening\<close>

subsection \<open>Writes of fresh properties\<close>

lemma update_fresh: "k \<notin> fst ` set al \<Longrightarrow> AList.update k v al = al @ [(k, v)]"
  by (induction al) auto

lemma writeAll_append: "writeAll target (xs @ ys) = writeAll (writeAll target xs) ys"
  by (simp add: writeAll_def)

lemma writeAll_Cons: "writeAll target ((k, v) # xs) = writeAll (set_prop target k v) xs"
  by (simp add: writeAll_def)

lemma writeAll_Nil: "writeAll target [] = target"
  by (simp add: writeAll_def)

lemma set_prop_fresh:
  "k \<noteq> ''__proto__'' \<Longrightarrow> k \<notin> fst ` set (own target) \<Longrightarrow>
   set_prop target k v = target\<lparr>own := own target @ [(k, v)]\<rparr>"
  by (simp add: set_prop_def update_fresh)

lemma writeAll_fresh:
  "''__proto__'' \<notin> fst ` set xs \<Longrightarrow> distinct (map fst xs) \<Longrightarrow>
   fst ` set xs \<inter> fst ` set (own target) = {} \<Longrightarrow>
   writeAll target xs = target\<lparr>own := own target @ xs\<rparr>"
proof (induction xs arbitrary: target)
  case Nil
  then show ?case by (simp add: writeAll_Nil)
next
  case (Cons x xs)
  obtain k v where x: "x = (k, v)" by (cases x)
  from Cons.prems x have k: "k \<noteq> ''__proto__''" and fresh: "k \<notin> fst ` set (own target)"
    by auto
  have "writeAll target (x # xs) = writeAll (set_prop target k v) xs"
    by (simp add: writeAll_Cons x)
  also have "\<dots> = writeAll (target\<lparr>own := own target @ [(k, v)]\<rparr>) xs"
    using k fresh by (simp add: set_prop_fresh)
  also have "\<dots> = (target\<lparr>own := own target @ [(k, v)]\<rparr>)
                      \<lparr>own := own (target\<lparr>own := own target @ [(k, v)]\<rparr>) @ xs\<rparr>"
    using Cons.prems x by (intro Cons.IH) auto
  finally show ?case by (simp add: x)
qed

lemma writeAll_emptyObject:
  "''__proto__'' \<notin> fst ` set xs \<Longrightarrow> distinct (map fst xs) \<Longrightarrow>
   writeAll emptyObject xs = \<lparr> own = xs, proto = ObjectPrototype \<rparr>"
  using writeAll_fresh [of xs emptyObject] by (simp add: emptyObject_def)

subsection \<open>Leaves of the entries of a nested value\<close>

lemma size_for_in: "(key, v) \<in> set (for_in obj) \<Longrightarrow> isNested obj \<Longrightarrow> size v < size obj"
proof (cases obj)
  case (Prim p)
  assume "isNested obj"
  with Prim show ?thesis by (cases p) (simp_all add: isNested_def)
next
  case (Arr vs)
  assume "(key, v) \<in> set (for_in obj)"
  with Arr have "v \<in> set vs" by (auto dest: set_zip_rightD)
  then have "size v < Suc (size_list size vs)"
    by (induction vs) auto
  with Arr show ?thesis by simp
next
  case (Obj kvs)
  assume "(key, v) \<in> set (for_in obj)"
  with Obj have "(key, v) \<in> set kvs" by simp
  then have "size v < Suc (size_list (size_prod (\<lambda>_. 0) size) kvs)"
    by (induction kvs) auto
  with Obj show ?thesis by simp
next
  case DateObject
  assume "(key, v) \<in> set (for_in obj)"
  with DateObject show ?thesis by simp
qed

lemma isNested_simps [simp]:
  "isNested (Prim p) = False" "isNested (Arr vs) = True" "isNested (Obj kvs) = True"
  "isNested DateObject = True"
  by (cases p; simp add: isNested_def)+

lemma flattenLoop_nested:
  "isNested v \<Longrightarrow>
   flattenLoop ((key, v) # rest) parentKey sep result =
     flattenLoop rest parentKey sep
       (Object_assign result
          (flattenLoop (for_in v) (joinKey parentKey sep key) sep emptyObject))"
  by (simp add: isNested_def Let_def)

lemma flattenLoop_prim:
  "\<not> isNested v \<Longrightarrow>
   flattenLoop ((key, v) # rest) parentKey sep result =
     flattenLoop rest parentKey sep (set_prop result (joinKey parentKey sep key) (the_prim v))"
  by (auto simp: isNested_def Let_def)

lemma nested_induct [case_names nested]:
  assumes "\<And>v. (\<And>key child. isNested v \<Longrightarrow> (key, child) \<in> set (for_in v) \<Longrightarrow> P child) \<Longrightarrow> P v"
  shows "P v"
proof (induction v rule: measure_induct_rule [where f = size])
  case (less v)
  show ?case
  proof (rule assms)
    fix key child
    assume "isNested v" and "(key, child) \<in> set (for_in v)"
    then have "size child < size v" by (simp add: size_for_in)
    then show "P child" by (rule less)
  qed
qed

lemma leaves_nested: "isNested v \<Longrightarrow> leaves v = entryLeaves (for_in v)"
proof (cases v)
  case (Prim p)
  assume "isNested v"
  with Prim show ?thesis by simp
next
  case (Arr vs)
  then show ?thesis
    by (simp add: entryLeaves_def zip_map1 zip_map2 case_prod_unfold comp_def)
next
  case (Obj kvs)
  then show ?thesis by (simp add: entryLeaves_def)
next
  case DateObject
  then show ?thesis by (simp add: entryLeaves_def)
qed

lemma leaves_prim: "\<not> isNested v \<Longrightarrow> leaves v = [([], the_prim v)]"
  by (cases v) simp_all

lemma entryLeaves_simps [simp]:
  "entryLeaves [] = []"
  "entryLeaves ((key, child) # rest) =
     map (\<lambda>(path, p). (key # path, p)) (leaves child) @ entryLeaves rest"
  by (simp_all add: entryLeaves_def)

lemma plainKeys_nested: "isNested v \<Longrightarrow> plainKeys v \<Longrightarrow> plainEntries (for_in v)"
proof (cases v)
  case (Prim p)
  assume "isNested v"
  with Prim show ?thesis by simp
next
  case (Arr vs)
  assume plain: "plainKeys v"
  have "distinct (map show_nat [0..<length vs])"
    by (auto simp: distinct_map intro!: inj_onI dest: show_nat_inj)
  moreover have "key \<noteq> [] \<and> CHR ''.'' \<notin> set key \<and> plainKeys child"
    if "(key, child) \<in> set (zip (map show_nat [0..<length vs]) vs)" for key child
  proof -
    from that have "key \<in> set (map show_nat [0..<length vs])" and "child \<in> set vs"
      by (auto dest: set_zip_leftD set_zip_rightD)
    with plain Arr show ?thesis
      by (auto simp: show_nat_not_Nil show_nat_dot_free)
  qed
  ultimately show ?thesis
    using Arr by (auto simp: plainEntries_def)
next
  case (Obj kvs)
  assume "plainKeys v"
  with Obj show ?thesis by (simp add: plainEntries_def)
next
  case DateObject
  then show ?thesis by (simp add: plainEntries_def)
qed

lemma plainEntries_Cons:
  "plainEntries ((key, child) # rest) \<longleftrightarrow>
     key \<notin> fst ` set rest \<and> key \<noteq> [] \<and> CHR ''.'' \<notin> set key \<and> plainKeys child
     \<and> plainEntries rest"
  by (auto simp: plainEntries_def)

lemma entryLeaves_heads:
  "(path, p) \<in> set (entryLeaves es) \<Longrightarrow> path \<noteq> [] \<and> hd path \<in> fst ` set es"
  by (induction es) (auto simp: image_iff)

lemma plainPath_leaves: "plainKeys v \<Longrightarrow> (path, p) \<in> set (leaves v) \<Longrightarrow> plainPath path"
proof (induction v arbitrary: path p rule: nested_induct)
  case (nested v)
  show ?case
  proof (cases "isNested v")
    case False
    with nested.prems show ?thesis by (simp add: leaves_prim plainPath_def)
  next
    case True
    with nested.prems have pe: "plainEntries (for_in v)" and mem: "(path, p) \<in> set (entryLeaves (for_in v))"
      by (simp_all add: plainKeys_nested leaves_nested)
    from mem obtain key child rest where e: "(key, child) \<in> set (for_in v)"
      and r: "(rest, p) \<in> set (leaves child)" and path: "path = key # rest"
      by (auto simp: entryLeaves_def)
    from pe e have k: "key \<noteq> [] \<and> CHR ''.'' \<notin> set key" and c: "plainKeys child"
      by (auto simp: plainEntries_def)
    from nested.IH [OF True e c r] have "plainPath rest" .
    with k path show ?thesis by (simp add: plainPath_def)
  qed
qed

lemma plainPath_entryLeaves:
  "plainEntries es \<Longrightarrow> (path, p) \<in> set (entryLeaves es) \<Longrightarrow> plainPath path"
proof (induction es)
  case Nil
  then show ?case by simp
next
  case (Cons e es)
  obtain key child where e: "e = (key, child)" by (cases e)
  from Cons.prems(1) e have k: "key \<noteq> [] \<and> CHR ''.'' \<notin> set key" and c: "plainKeys child"
    and es: "plainEntries es"
    by (simp_all add: plainEntries_Cons)
  from Cons.prems(2) e consider
      rest where "(rest, p) \<in> set (leaves child)" and "path = key # rest"
    | "(path, p) \<in> set (entryLeaves es)"
    by auto
  then show ?case
  proof cases
    case 1
    from plainPath_leaves [OF c 1(1)] k 1(2) show ?thesis
      by (simp add: plainPath_def)
  next
    case 2
    with Cons.IH es show ?thesis by simp
  qed
qed

lemma distinct_entryLeaves:
  "distinct (map fst es) \<Longrightarrow>
   (\<And>key child. (key, child) \<in> set es \<Longrightarrow> distinct (map fst (leaves child))) \<Longrightarrow>
   distinct (map fst (entryLeaves es))"
proof (induction es)
  case Nil
  then show ?case by simp
next
  case (Cons e es)
  obtain key child where e: "e = (key, child)" by (cases e)
  have d1: "distinct (map ((#) key) (map fst (leaves child)))"
    using Cons.prems(2) [of key child] e by (auto simp: distinct_map inj_on_def)
  have d2: "distinct (map fst (entryLeaves es))"
    using Cons.prems by (intro Cons.IH) auto
  have apart: "set (map ((#) key) (map fst (leaves child))) \<inter> set (map fst (entryLeaves es)) = {}"
  proof (rule ccontr)
    assume "\<not> ?thesis"
    then obtain path where "path \<in> set (map ((#) key) (map fst (leaves child)))"
      and "path \<in> set (map fst (entryLeaves es))"
      by auto
    then obtain p where "hd path = key" and "(path, p) \<in> set (entryLeaves es)"
      by auto
    then have "key \<in> fst ` set es"
      using entryLeaves_heads by blast
    with Cons.prems(1) e show False by simp
  qed
  have split: "map fst (entryLeaves (e # es)) =
               map ((#) key) (map fst (leaves child)) @ map fst (entryLeaves es)"
    unfolding e by (simp add: case_prod_unfold comp_def)
  show ?case
    unfolding split distinct_append using d1 d2 apart by blast
qed

lemma distinct_leaves: "plainKeys v \<Longrightarrow> distinct (map fst (leaves v))"
proof (induction v rule: nested_induct)
  case (nested v)
  show ?case
  proof (cases "isNested v")
    case False
    then show ?thesis by (simp add: leaves_prim)
  next
    case True
    with nested.prems have pe: "plainEntries (for_in v)"
      by (simp add: plainKeys_nested)
    have "distinct (map fst (entryLeaves (for_in v)))"
    proof (rule distinct_entryLeaves)
      show "distinct (map fst (for_in v))"
        using pe by (simp add: plainEntries_def)
    next
      fix key child
      assume e: "(key, child) \<in> set (for_in v)"
      with pe have "plainKeys child"
        by (auto simp: plainEntries_def)
      with nested.IH [OF True e] show "distinct (map fst (leaves child))" .
    qed
    with True show ?thesis by (simp add: leaves_nested)
  qed
qed

subsection \<open>Dot-joined paths of plain keys\<close>

lemma takeWhile_dotted:
  assumes "CHR ''.'' \<notin> set key"
  shows "takeWhile (\<lambda>c. c \<noteq> CHR ''.'') (dotted (key # path)) = key"
proof -
  from assms have all: "\<forall>c \<in> set key. c \<noteq> CHR ''.''" by auto
  show ?thesis
  proof (cases path)
    case Nil
    with all show ?thesis by (simp add: takeWhile_eq_all_conv)
  next
    case (Cons key' path')
    with all show ?thesis by (simp add: takeWhile_tail)
  qed
qed

lemma dropWhile_dotted:
  assumes "CHR ''.'' \<notin> set key"
  shows "dropWhile (\<lambda>c. c \<noteq> CHR ''.'') (dotted (key # path)) =
     (if path = [] then [] else CHR ''.'' # dotted path)"
proof -
  from assms have all: "\<forall>c \<in> set key. c \<noteq> CHR ''.''" by auto
  show ?thesis
  proof (cases path)
    case Nil
    with all show ?thesis by (simp add: dropWhile_eq_Nil_conv)
  next
    case (Cons key' path')
    with all show ?thesis by (simp add: dropWhile_append3)
  qed
qed

lemma dotted_not_Nil: "plainPath path \<Longrightarrow> path \<noteq> [] \<Longrightarrow> dotted path \<noteq> []"
  by (cases path rule: dotted.cases) (simp_all add: plainPath_def)

lemma dotted_inj:
  "plainPath p \<Longrightarrow> plainPath q \<Longrightarrow> dotted p = dotted q \<Longrightarrow> p = q"
proof (induction p arbitrary: q)
  case Nil
  then show ?case
    using dotted_not_Nil [of q] by (cases q) auto
next
  case (Cons key path)
  show ?case
  proof (cases q)
    case Nil
    with Cons.prems show ?thesis
      using dotted_not_Nil [of "key # path"] by auto
  next
    case q: (Cons key' path')
    from Cons.prems q have free: "CHR ''.'' \<notin> set key" "CHR ''.'' \<notin> set key'"
      and pp: "plainPath path" "plainPath path'"
      by (simp_all add: plainPath_def)
    from Cons.prems(3) q have eq: "dotted (key # path) = dotted (key' # path')" by simp
    have "takeWhile (\<lambda>c. c \<noteq> CHR ''.'') (dotted (key # path)) =
          takeWhile (\<lambda>c. c \<noteq> CHR ''.'') (dotted (key' # path'))"
      by (simp only: eq)
    then have keys: "key = key'"
      by (simp only: takeWhile_dotted [OF free(1)] takeWhile_dotted [OF free(2)])
    have "dropWhile (\<lambda>c. c \<noteq> CHR ''.'') (dotted (key # path)) =
          dropWhile (\<lambda>c. c \<noteq> CHR ''.'') (dotted (key' # path'))"
      by (simp only: eq)
    then have rest: "(if path = [] then [] else CHR ''.'' # dotted path) =
                     (if path' = [] then [] else CHR ''.'' # dotted path')"
      by (simp only: dropWhile_dotted [OF free(1)] dropWhile_dotted [OF free(2)])
    have "path = path'"
    proof (cases "path = []")
      case True
      with rest show ?thesis by (simp split: if_splits)
    next
      case False
      with rest have "path' \<noteq> []" and "dotted path = dotted path'"
        by (simp_all split: if_splits)
      with Cons.IH pp show ?thesis by simp
    qed
    with keys q show ?thesis by simp
  qed
qed

subsection \<open>The loop on plain entries\<close>

lemma joinKey_inj: "joinKey parentKey sep a = joinKey parentKey sep b \<Longrightarrow> a = b"
  by (simp add: joinKey_def split: if_splits)

lemma joinKey_step:
  assumes "key \<noteq> []" and "path \<noteq> []"
  shows "joinKey (joinKey parentKey ''.'' key) ''.'' (dotted path) =
         joinKey parentKey ''.'' (dotted (key # path))"
proof -
  from assms(2) obtain key' path' where "path = key' # path'" by (cases path) auto
  with assms(1) show ?thesis by (simp add: joinKey_def)
qed

lemma distinct_flatKeys:
  assumes "distinct (map fst ls)" and "\<And>path p. (path, p) \<in> set ls \<Longrightarrow> plainPath path"
  shows "distinct (map fst (flatKeys parentKey ls))"
proof -
  let ?join = "\<lambda>path. joinKey parentKey ''.'' (dotted path)"
  have eq: "map fst (flatKeys parentKey ls) = map ?join (map fst ls)"
    by (simp add: flatKeys_def case_prod_unfold comp_def)
  have inj: "inj_on ?join (set (map fst ls))"
  proof (rule inj_onI)
    fix a b
    assume a: "a \<in> set (map fst ls)" and b: "b \<in> set (map fst ls)"
      and same: "?join a = ?join b"
    from a b assms(2) have "plainPath a" and "plainPath b" by auto
    moreover from same have "dotted a = dotted b" by (rule joinKey_inj)
    ultimately show "a = b" by (rule dotted_inj)
  qed
  from assms(1) inj have "distinct (map fst ls) \<and> inj_on ?join (set (map fst ls))"
    by (rule conjI)
  then have "distinct (map ?join (map fst ls))"
    by (rule iffD2 [OF distinct_map])
  then show ?thesis
    by (simp only: eq)
qed

lemma flatKeys_append:
  "flatKeys parentKey (xs @ ys) = flatKeys parentKey xs @ flatKeys parentKey ys"
  by (simp add: flatKeys_def)

lemma flatKeys_child:
  assumes "key \<noteq> []" and "\<And>path p. (path, p) \<in> set ls \<Longrightarrow> path \<noteq> []"
  shows "flatKeys parentKey (map (\<lambda>(path, p). (key # path, p)) ls) =
         flatKeys (joinKey parentKey ''.'' key) ls"
  using assms by (auto simp: flatKeys_def joinKey_step)

lemma flattenLoop_flatKeys:
  "plainEntries es \<Longrightarrow> ''__proto__'' \<notin> fst ` set (flatKeys parentKey (entryLeaves es)) \<Longrightarrow>
   flattenLoop es parentKey ''.'' result = writeAll result (flatKeys parentKey (entryLeaves es))"
proof (induction es parentKey "''.''" result rule: flattenLoop.induct)
  case (1 parentKey result)
  show ?case by (simp add: flatKeys_def writeAll_Nil)
next
  case (2 key v rest parentKey result)
  from "2.prems"(1) have key: "key \<noteq> []" and v: "plainKeys v" and rest: "plainEntries rest"
    by (simp_all add: plainEntries_Cons)
  from "2.prems"(2) have keys_rest: "''__proto__'' \<notin> fst ` set (flatKeys parentKey (entryLeaves rest))"
    by (auto simp: flatKeys_append)
  show ?case
  proof (cases "isNested v")
    case False
    then have step: "flattenLoop ((key, v) # rest) parentKey ''.'' result =
        flattenLoop rest parentKey ''.'' (set_prop result (joinKey parentKey ''.'' key) (the_prim v))"
      by (rule flattenLoop_prim)
    from False have cond: "\<not> (typeof v = ''object'' \<and> v \<noteq> Prim Null)"
      by (simp add: isNested_def)
    have "flattenLoop rest parentKey ''.'' (set_prop result (joinKey parentKey ''.'' key) (the_prim v)) =
        writeAll (set_prop result (joinKey parentKey ''.'' key) (the_prim v))
          (flatKeys parentKey (entryLeaves rest))"
      using "2.hyps"(2) [OF refl rest keys_rest] cond by simp
    also have "\<dots> = writeAll result (flatKeys parentKey (entryLeaves ((key, v) # rest)))"
      using False by (simp add: leaves_prim flatKeys_def writeAll_Cons)
    finally show ?thesis using step by simp
  next
    case True
    then have step: "flattenLoop ((key, v) # rest) parentKey ''.'' result =
        flattenLoop rest parentKey ''.''
          (Object_assign result
             (flattenLoop (for_in v) (joinKey parentKey ''.'' key) ''.'' emptyObject))"
      by (rule flattenLoop_nested)
    from True have cond: "typeof v = ''object'' \<and> v \<noteq> Prim Null"
      by (simp add: isNested_def)
    from True v have pe: "plainEntries (for_in v)"
      by (simp add: plainKeys_nested)
    have child: "flatKeys parentKey (map (\<lambda>(path, p). (key # path, p)) (entryLeaves (for_in v))) =
        flatKeys (joinKey parentKey ''.'' key) (entryLeaves (for_in v))"
      using key entryLeaves_heads by (intro flatKeys_child) blast+
    have split: "flatKeys parentKey (entryLeaves ((key, v) # rest)) =
        flatKeys (joinKey parentKey ''.'' key) (entryLeaves (for_in v)) @
        flatKeys parentKey (entryLeaves rest)"
      by (simp only: entryLeaves_simps leaves_nested [OF True] flatKeys_append child)
    from "2.prems"(2) have keys_child:
      "''__proto__'' \<notin> fst ` set (flatKeys (joinKey parentKey ''.'' key) (entryLeaves (for_in v)))"
      unfolding split by auto
    have inner: "flattenLoop (for_in v) (joinKey parentKey ''.'' key) ''.'' emptyObject =
        \<lparr> own = flatKeys (joinKey parentKey ''.'' key) (entryLeaves (for_in v)),
          proto = ObjectPrototype \<rparr>"
    proof -
      have "flattenLoop (for_in v) (joinKey parentKey ''.'' key) ''.'' emptyObject =
          writeAll emptyObject (flatKeys (joinKey parentKey ''.'' key) (entryLeaves (for_in v)))"
        using "2.hyps"(1) [OF refl cond pe keys_child] .
      moreover have "distinct (map fst (flatKeys (joinKey parentKey ''.'' key) (entryLeaves (for_in v))))"
      proof (rule distinct_flatKeys)
        show "distinct (map fst (entryLeaves (for_in v)))"
          using distinct_leaves [OF v] True by (simp add: leaves_nested)
      next
        fix path p
        assume "(path, p) \<in> set (entryLeaves (for_in v))"
        with pe show "plainPath path" by (rule plainPath_entryLeaves)
      qed
      ultimately show ?thesis using keys_child by (simp add: writeAll_emptyObject)
    qed
    have "flattenLoop rest parentKey ''.''
          (Object_assign result
             (flattenLoop (for_in v) (joinKey parentKey ''.'' key) ''.'' emptyObject)) =
        writeAll (Object_assign result
             (flattenLoop (for_in v) (joinKey parentKey ''.'' key) ''.'' emptyObject))
          (flatKeys parentKey (entryLeaves rest))"
      using "2.hyps"(2) [OF refl rest keys_rest] cond by simp
    also have "\<dots> = writeAll result
          (flatKeys (joinKey parentKey ''.'' key) (entryLeaves (for_in v)) @
           flatKeys parentKey (entryLeaves rest))"
      by (simp add: inner Object_assign_def writeAll_append)
    also have "\<dots> = writeAll result (flatKeys parentKey (entryLeaves ((key, v) # rest)))"
      by (simp only: split)
    finally show ?thesis using step by simp
  qed
qed

subsection \<open>Flattened keys and leaves\<close>

lemma dotted_proto:
  assumes "plainPath path" and "dotted path = ''__proto__''"
  shows "path = [''__proto__'']"
proof -
  have "plainPath [''__proto__'']" by (simp add: plainPath_def)
  moreover have "dotted path = dotted [''__proto__'']" using assms(2) by simp
  ultimately show ?thesis using assms(1) by (intro dotted_inj)
qed

text \<open>
  C7, amended. For every nested document that is a finite tree of primitives, dates,
  sequences and mappings, in which the keys of every mapping are plain (non-empty and
  free of dots) and no primitive sits at the top level under the key
  \<^verbatim>\<open>__proto__\<close>: the own properties of the flattened object are exactly the leaves
  (the primitive values, \<^verbatim>\<open>null\<close> included) of the document, each under the
  dot-joined path of the leaf and with its value; the paths of the leaves are pairwise
  distinct, dot-joining is injective on them, the keys of the flattened object are
  pairwise distinct, and its prototype is still \<^verbatim>\<open>Object.prototype\<close>. A date is
  not a leaf, and its key is in no property.
\<close>

theorem flattenObj_leaves:
  assumes "isNested doc" and "plainKeys doc" and "[''__proto__''] \<notin> fst ` set (leaves doc)"
  shows "set (own (flattenObj doc [] ''.'')) = (\<lambda>(path, p). (dotted path, p)) ` set (leaves doc)
       \<and> distinct (map fst (own (flattenObj doc [] ''.'')))
       \<and> distinct (map fst (leaves doc))
       \<and> inj_on dotted (fst ` set (leaves doc))
       \<and> proto (flattenObj doc [] ''.'') = ObjectPrototype"
proof -
  from assms have pe: "plainEntries (for_in doc)"
    by (simp add: plainKeys_nested)
  have paths: "plainPath path" if "(path, p) \<in> set (leaves doc)" for path p
    using assms(2) that by (rule plainPath_leaves)
  have d: "distinct (map fst (leaves doc))"
    using assms(2) by (rule distinct_leaves)
  have dk: "distinct (map fst (flatKeys [] (leaves doc)))"
    using d paths by (rule distinct_flatKeys)
  have keys: "flatKeys [] (leaves doc) = map (\<lambda>(path, p). (dotted path, p)) (leaves doc)"
    by (simp add: flatKeys_def joinKey_def)
  have np: "''__proto__'' \<notin> fst ` set (flatKeys [] (leaves doc))"
  proof
    assume "''__proto__'' \<in> fst ` set (flatKeys [] (leaves doc))"
    then obtain path p where mem: "(path, p) \<in> set (leaves doc)"
      and eq: "dotted path = ''__proto__''"
      unfolding keys by auto
    from paths [OF mem] eq have "path = [''__proto__'']" by (rule dotted_proto)
    with mem assms(3) show False by force
  qed
  have "flattenObj doc [] ''.'' = writeAll emptyObject (flatKeys [] (entryLeaves (for_in doc)))"
    unfolding flattenObj_def using pe np
    by (intro flattenLoop_flatKeys) (simp_all add: leaves_nested [OF assms(1)])
  also have "\<dots> = \<lparr> own = flatKeys [] (leaves doc), proto = ObjectPrototype \<rparr>"
    using dk np by (simp add: leaves_nested [OF assms(1)] writeAll_emptyObject)
  finally have flat: "flattenObj doc [] ''.'' =
      \<lparr> own = flatKeys [] (leaves doc), proto = ObjectPrototype \<rparr>" .
  have inj: "inj_on dotted (fst ` set (leaves doc))"
  proof (rule inj_onI)
    fix a b
    assume "a \<in> fst ` set (leaves doc)" and "b \<in> fst ` set (leaves doc)"
    then have "plainPath a" and "plainPath b"
      using paths by auto
    moreover assume "dotted a = dotted b"
    ultimately show "a = b" by (rule dotted_inj)
  qed
  from dk have dk': "distinct (map fst (map (\<lambda>(path, p). (dotted path, p)) (leaves doc)))"
    by (simp only: keys)
  show ?thesis
    unfolding flat using d inj dk' by (simp add: keys)
qed

theorem flattenObj_leaves_witness:
  "isNested (Obj [(''db'', Obj [(''host'', Prim (Str ''localhost'')),
                                 (''ports'', Arr [Prim (Num 80), Prim (Num 443)]),
                                 (''since'', DateObject)])])
   \<and> plainKeys (Obj [(''db'', Obj [(''host'', Prim (Str ''localhost'')),
                                    (''ports'', Arr [Prim (Num 80), Prim (Num 443)]),
                                    (''since'', DateObject)])])
   \<and> [''__proto__'']
       \<notin> fst ` set (leaves (Obj [(''db'', Obj [(''host'', Prim (Str ''localhost'')),
                                                (''ports'', Arr [Prim (Num 80), Prim (Num 443)]),
                                                (''since'', DateObject)])]))
   \<and> leaves (Obj [(''db'', Obj [(''host'', Prim (Str ''localhost'')),
                                 (''ports'', Arr [Prim (Num 80), Prim (Num 443)]),
                                 (''since'', DateObject)])])
       = [([''db'', ''host''], Str ''localhost''),
          ([''db'', ''ports'', ''0''], Num 80), ([''db'', ''ports'', ''1''], Num 443)]
   \<and> set (own (flattenObj
                 (Obj [(''db'', Obj [(''host'', Prim (Str ''localhost'')),
                                     (''ports'', Arr [Prim (Num 80), Prim (Num 443)]),
                                     (''since'', DateObject)])]) [] ''.''))
       = {(''db.host'', Str ''localhost''), (''db.ports.0'', Num 80), (''db.ports.1'', Num 443)}"
proof -
  let ?doc = "Obj [(''db'', Obj [(''host'', Prim (Str ''localhost'')),
                                  (''ports'', Arr [Prim (Num 80), Prim (Num 443)]),
                                  (''since'', DateObject)])]"
  have n: "isNested ?doc" by simp
  have p: "plainKeys ?doc"
    by simp
  have l: "leaves ?doc = [([''db'', ''host''], Str ''localhost''),
          ([''db'', ''ports'', ''0''], Num 80), ([''db'', ''ports'', ''1''], Num 443)]"
    by (simp add: show_nat_values upt_rec)
  have q: "[''__proto__''] \<notin> fst ` set (leaves ?doc)"
    unfolding l by simp
  from flattenObj_leaves [OF n p q] n p q l show ?thesis
    by simp
qed

text \<open>
  Without plain keys two leaves can meet under one flattened key: the mapping with the
  key \<^verbatim>\<open>a.b\<close> and the key \<^verbatim>\<open>a\<close> over a mapping with the key \<^verbatim>\<open>b\<close> has two
  leaves, and the flattened object has the single property \<^verbatim>\<open>a.b\<close> holding the
  value of the second. A number at the top level under the key \<^verbatim>\<open>__proto__\<close> is
  written through the setter of \<^verbatim>\<open>Object.prototype\<close> and is lost. A timestamp is
  parsed to a date, which has nothing to enumerate: its key is lost.
\<close>

theorem flattenObj_key_collision:
  "leaves (Obj [(''a.b'', Prim (Str ''1'')), (''a'', Obj [(''b'', Prim (Str ''2''))])])
     = [([''a.b''], Str ''1''), ([''a'', ''b''], Str ''2'')]
   \<and> own (flattenObj (Obj [(''a.b'', Prim (Str ''1'')), (''a'', Obj [(''b'', Prim (Str ''2''))])])
            [] ''.'')
     = [(''a.b'', Str ''2'')]
   \<and> flattenObj (Obj [(''__proto__'', Prim (Num 1)), (''b'', Prim (Num 2))]) [] ''.''
     = \<lparr> own = [(''b'', Num 2)], proto = ObjectPrototype \<rparr>
   \<and> flattenObj (Obj [(''since'', DateObject)]) [] ''.''
     = \<lparr> own = [], proto = ObjectPrototype \<rparr>"
  by (simp add: flattenObj_def joinKey_def set_prop_def Object_assign_def writeAll_def
        emptyObject_def Object_keys_def ownKeys_def)

subsection \<open>Sequences\<close>

lemma flattenLoop_prims:
  "flattenLoop (map (\<lambda>(k, p). (k, Prim p)) kps) parentKey sep result =
     writeAll result (map (\<lambda>(k, p). (joinKey parentKey sep k, p)) kps)"
proof (induction kps arbitrary: result)
  case Nil
  show ?case by (simp add: writeAll_Nil)
next
  case (Cons kp kps)
  obtain k p where kp: "kp = (k, p)" by (cases kp)
  have "flattenLoop ((k, Prim p) # map (\<lambda>(k, p). (k, Prim p)) kps) parentKey sep result =
        flattenLoop (map (\<lambda>(k, p). (k, Prim p)) kps) parentKey sep
          (set_prop result (joinKey parentKey sep k) (the_prim (Prim p)))"
    by (rule flattenLoop_prim) simp
  then show ?case
    by (simp add: kp Cons.IH writeAll_Cons del: flattenLoop.simps)
qed

lemma digit_char_not_underscore: "d < 10 \<Longrightarrow> digit_char d \<noteq> CHR ''_''"
proof
  assume "d < 10" and "digit_char d = CHR ''_''"
  then have "(of_char (digit_char d) :: nat) = of_char CHR ''_''" by simp
  with \<open>d < 10\<close> show False by (simp add: of_char_digit_char)
qed

lemma last_show_nat: "last (show_nat n) \<noteq> CHR ''_''"
proof (cases "n < 10")
  case True
  then show ?thesis
    using digit_char_not_underscore [of n] by (subst show_nat.simps) simp
next
  case False
  then show ?thesis
    using digit_char_not_underscore [of "n mod 10"] by (subst show_nat.simps) simp
qed

lemma index_key_not_proto: "joinKey key sep (show_nat i) \<noteq> ''__proto__''"
proof
  assume "joinKey key sep (show_nat i) = ''__proto__''"
  then have "last (joinKey key sep (show_nat i)) = CHR ''_''" by simp
  moreover have "last (joinKey key sep (show_nat i)) = last (show_nat i)"
    by (simp add: joinKey_def show_nat_not_Nil)
  ultimately show False using last_show_nat [of i] by simp
qed

text \<open>
  C6, amended. For every YAML document, the flattening step treats a sequence as it
  treats a mapping whose keys are the indices of the elements in decimal: it recurses
  into the elements and produces index-based keys. In particular a mapping with one
  key over a sequence of primitives is flattened to one property per element, under
  the key joined with the index, in order.
\<close>

theorem flattenObj_array:
  "flattenLoop ((key, Arr vs) # rest) parentKey sep result =
     flattenLoop ((key, Obj (zip (map show_nat [0..<length vs]) vs)) # rest) parentKey sep result
   \<and> flattenObj (Obj [(key, Arr (map Prim ps))]) [] sep =
       \<lparr> own = map (\<lambda>(i, p). (joinKey key sep (show_nat i), p)) (zip [0..<length ps] ps),
         proto = ObjectPrototype \<rparr>"
proof
  show "flattenLoop ((key, Arr vs) # rest) parentKey sep result =
     flattenLoop ((key, Obj (zip (map show_nat [0..<length vs]) vs)) # rest) parentKey sep result"
    by simp
next
  let ?items = "map (\<lambda>(i, p). (joinKey key sep (show_nat i), p)) (zip [0..<length ps] ps)"
  have entries: "for_in (Arr (map Prim ps)) =
      map (\<lambda>(k, p). (k, Prim p)) (zip (map show_nat [0..<length ps]) ps)"
    by (simp add: zip_map2 case_prod_unfold)
  have items: "map (\<lambda>(k, p). (joinKey key sep k, p)) (zip (map show_nat [0..<length ps]) ps) = ?items"
    by (simp add: zip_map1 case_prod_unfold comp_def)
  have z: "map fst (zip [0..<length ps] ps) = [0..<length ps]"
    by simp
  have "map fst ?items =
        map (\<lambda>i. joinKey key sep (show_nat i)) (map fst (zip [0..<length ps] ps))"
    by (simp add: case_prod_unfold comp_def del: map_fst_zip)
  then have keys: "map fst ?items = map (\<lambda>i. joinKey key sep (show_nat i)) [0..<length ps]"
    by (simp only: z)
  have "distinct (map (\<lambda>i. joinKey key sep (show_nat i)) [0..<length ps])"
    by (auto simp: distinct_map intro!: inj_onI dest!: joinKey_inj show_nat_inj)
  with keys have d: "distinct (map fst ?items)" by simp
  have "''__proto__'' \<notin> set (map fst ?items)"
  proof
    assume "''__proto__'' \<in> set (map fst ?items)"
    then obtain i where "joinKey key sep (show_nat i) = ''__proto__''"
      unfolding keys by auto
    then show False by (simp add: index_key_not_proto)
  qed
  then have np: "''__proto__'' \<notin> fst ` set ?items"
    by (simp only: set_map not_False_eq_True)
  have "flattenLoop (for_in (Arr (map Prim ps))) key sep emptyObject = writeAll emptyObject ?items"
    by (simp only: entries flattenLoop_prims items)
  also have "\<dots> = \<lparr> own = ?items, proto = ObjectPrototype \<rparr>"
    using np d by (rule writeAll_emptyObject)
  finally have inner: "flattenLoop (for_in (Arr (map Prim ps))) key sep emptyObject =
      \<lparr> own = ?items, proto = ObjectPrototype \<rparr>" .
  have "flattenObj (Obj [(key, Arr (map Prim ps))]) [] sep =
        Object_assign emptyObject (flattenLoop (for_in (Arr (map Prim ps))) key sep emptyObject)"
    by (simp add: flattenObj_def joinKey_def)
  also have "\<dots> = writeAll emptyObject ?items"
    by (simp only: inner Object_assign_def object.simps)
  also have "\<dots> = \<lparr> own = ?items, proto = ObjectPrototype \<rparr>"
    using np d by (rule writeAll_emptyObject)
  finally show "flattenObj (Obj [(key, Arr (map Prim ps))]) [] sep =
      \<lparr> own = ?items, proto = ObjectPrototype \<rparr>" .
qed

lemmas flatten_defs = flattenObj_def joinKey_def set_prop_def Object_assign_def writeAll_def
  emptyObject_def Object_keys_def ownKeys_def

theorem flattenObj_array_witness:
  "flattenObj (Obj [(''tags'', Arr (map Prim [Str ''x'', Str ''y'']))]) [] ''.''
     = \<lparr> own = [(''tags.0'', Str ''x''), (''tags.1'', Str ''y'')], proto = ObjectPrototype \<rparr>"
  using flattenObj_array [where key = "''tags''" and ps = "[Str ''x'', Str ''y'']" and sep = "''.''"
      and vs = "[]" and rest = "[]" and parentKey = "[]" and result = "emptyObject"]
  by (simp add: joinKey_def show_nat_values upt_rec)

text \<open>
  A sequence of mappings and a sequence of strings: both are flattened under
  index-based keys.
\<close>

theorem flattenObj_array_of_maps:
  "flattenObj (Obj [(''servers'', Arr [Obj [(''host'', Prim (Str ''a''))],
                                        Obj [(''host'', Prim (Str ''b''))]]),
                    (''tags'', Arr [Prim (Str ''x''), Prim (Str ''y'')])]) [] ''.''
     = \<lparr> own = [(''servers.0.host'', Str ''a''), (''servers.1.host'', Str ''b''),
                (''tags.0'', Str ''x''), (''tags.1'', Str ''y'')],
         proto = ObjectPrototype \<rparr>"
  by (simp add: flatten_defs show_nat_values)

section \<open>Properties of the comparison run\<close>

lemmas concrete_run_defs = compare_def compareBody_def checkIfBothFilesAreOfSameType_def parseFile_def
  validateAndReturnResolvedFilePath_def checkIfAnyEnvironmentObjectIsEmpty_def isEmpty_def
  Object_keys_def ownKeys_def extname_def basename_part_def Let_def
  demo_world_def demo_files_def keys_only_def keys_and_values_def values_only_def no_flags_def

subsection \<open>How the run goes on after each step\<close>

lemma parseFile_missing:
  "\<not> fs_existsSync w (path_resolve w f) \<Longrightarrow>
   parseFile w f = ([ExistsSync (path_resolve w f)], Inl (FileNotFoundError (path_resolve w f)))"
  by (simp add: parseFile_def validateAndReturnResolvedFilePath_def Let_def)

lemma parseFile_yaml_throws:
  assumes "fs_existsSync w (path_resolve w f)"
    and "extname (path_resolve w f) = ''.yaml'' \<or> extname (path_resolve w f) = ''.yml''"
    and "fs_readFileSync w (path_resolve w f) = Inr content"
    and "yaml_load w content = Inl msg"
  shows "parseFile w f =
     ([ExistsSync (path_resolve w f), ReadFileSync (path_resolve w f), YamlLoad content],
      Inl (OtherError msg))"
  using assms by (auto simp: parseFile_def validateAndReturnResolvedFilePath_def Let_def)

lemma parseFile_no_output: "parseFile w f = (t, r) \<Longrightarrow> filter isOutput t = []"
  by (auto simp: parseFile_def validateAndReturnResolvedFilePath_def Let_def
      split: if_splits sum.splits)

lemma parseFile_reads:
  "parseFile w f = (t, Inr A) \<Longrightarrow> ReadFileSync (path_resolve w f) \<in> set t"
  by (auto simp: parseFile_def validateAndReturnResolvedFilePath_def Let_def
      split: if_splits sum.splits)

lemma compare_first_fails:
  "extname f1 = extname f2 \<Longrightarrow> parseFile w f1 = (t1, Inl e) \<Longrightarrow>
   compareBody w f1 f2 options = (t1, Inl e)"
  by (simp add: compareBody_def checkIfBothFilesAreOfSameType_def)

lemma compare_second_fails:
  "extname f1 = extname f2 \<Longrightarrow> parseFile w f1 = (t1, Inr A) \<Longrightarrow> parseFile w f2 = (t2, Inl e) \<Longrightarrow>
   compareBody w f1 f2 options = (t1 @ t2, Inl e)"
  by (simp add: compareBody_def checkIfBothFilesAreOfSameType_def)

lemma compareBody_parsed:
  "extname f1 = extname f2 \<Longrightarrow> parseFile w f1 = (t1, Inr A) \<Longrightarrow> parseFile w f2 = (t2, Inr B) \<Longrightarrow>
   compareBody w f1 f2 options =
     (t1 @ t2 @ checkIfAnyEnvironmentObjectIsEmpty f1 f2 A B @ modeOutput options f1 f2 A B, Inr ())"
  by (simp add: compareBody_def checkIfBothFilesAreOfSameType_def Let_def modeOutput_def)

lemma checkEmpty_no_value_output:
  "filter isValueModeOutput (checkIfAnyEnvironmentObjectIsEmpty f1 f2 A B) = []"
  by (simp add: checkIfAnyEnvironmentObjectIsEmpty_def noValueDifferencesMessage_def)

lemma filter_weaker: "filter P t = [] \<Longrightarrow> (\<And>e. Q e \<Longrightarrow> P e) \<Longrightarrow> filter Q t = []"
  by (induction t) (auto split: if_splits)

lemma isValueModeOutput_isOutput: "isValueModeOutput e \<Longrightarrow> isOutput e"
  by (cases e) simp_all

lemma isKeyModeOutput_isOutput: "isKeyModeOutput e \<Longrightarrow> isOutput e"
  by (cases e) simp_all

lemma checkEmpty_no_key_output:
  "filter isKeyModeOutput (checkIfAnyEnvironmentObjectIsEmpty f1 f2 A B) = []"
  by (simp add: checkIfAnyEnvironmentObjectIsEmpty_def)

lemma compare_mode_filter:
  assumes io: "\<And>e. Q e \<Longrightarrow> isOutput e"
    and err: "\<And>m. \<not> Q (ConsoleError m)" "\<And>n. \<not> Q (ProcessExit n)"
    and empty: "\<And>A B. filter Q (checkIfAnyEnvironmentObjectIsEmpty f1 f2 A B) = []"
    and mode: "\<And>A B. filter Q (modeOutput options f1 f2 A B) = []"
  shows "filter Q (compare w f1 f2 options) = []"
proof (cases "extname f1 = extname f2")
  case False
  then show ?thesis
    by (simp add: compare_def compareBody_def checkIfBothFilesAreOfSameType_def err)
next
  case same: True
  obtain t1 r1 where p1: "parseFile w f1 = (t1, r1)" by (cases "parseFile w f1")
  obtain t2 r2 where p2: "parseFile w f2 = (t2, r2)" by (cases "parseFile w f2")
  have q1: "filter Q t1 = []"
    using parseFile_no_output [OF p1] io by (rule filter_weaker)
  have q2: "filter Q t2 = []"
    using parseFile_no_output [OF p2] io by (rule filter_weaker)
  show ?thesis
  proof (cases r1)
    case (Inl e)
    with same p1 q1 show ?thesis
      by (simp add: compare_def compare_first_fails err)
  next
    case A: (Inr A')
    show ?thesis
    proof (cases r2)
      case (Inl e)
      with same p1 p2 A q1 q2 show ?thesis
        by (simp add: compare_def compare_second_fails err)
    next
      case (Inr B')
      with same p1 p2 A q1 q2 show ?thesis
        by (simp add: compare_def compareBody_parsed mode empty)
    qed
  qed
qed

subsection \<open>The concrete directory\<close>

lemma demo_parse_a_env:
  "parseFile demo_world ''a.env'' =
     ([ExistsSync ''/cwd/a.env'', ReadFileSync ''/cwd/a.env'', DotenvParse ''FOO=1''],
      Inr \<lparr> own = [(''FOO'', Str ''1'')], proto = ObjectPrototype \<rparr>)"
  by (simp add: concrete_run_defs)

lemma demo_parse_b_env:
  "parseFile demo_world ''b.env'' =
     ([ExistsSync ''/cwd/b.env'', ReadFileSync ''/cwd/b.env'', DotenvParse ''FOO=2''],
      Inr \<lparr> own = [(''FOO'', Str ''2'')], proto = ObjectPrototype \<rparr>)"
  by (simp add: concrete_run_defs)

lemma demo_missing_c_env: "\<not> fs_existsSync demo_world (path_resolve demo_world ''c.env'')"
  by (simp add: demo_world_def demo_files_def)

lemma extname_env:
  "extname ''a.env'' = ''.env''" "extname ''b.env'' = ''.env''" "extname ''c.env'' = ''.env''"
  by (simp_all add: extname_def basename_part_def)

lemma demo_parse_a_yaml:
  "parseFile demo_world ''a.yaml'' =
     ([ExistsSync ''/cwd/a.yaml'', ReadFileSync ''/cwd/a.yaml'', YamlLoad ''FOO: 1''],
      Inr \<lparr> own = [(''FOO'', Num 1)], proto = ObjectPrototype \<rparr>)"
  by (simp add: concrete_run_defs flatten_defs)

subsection \<open>The check of the two file types\<close>

text \<open>
  C3. \<^verbatim>\<open>checkIfBothFilesAreOfSameType\<close> compares the two extensions as strings.
  On \<^verbatim>\<open>a.yaml\<close> and \<^verbatim>\<open>b.yml\<close> it throws \<^verbatim>\<open>FileCompareError\<close>, in every
  directory and with any options: the run prints that error and exits with code 1
  before it looks at a file, although the specification counts \<^verbatim>\<open>.yaml\<close> and
  \<^verbatim>\<open>.yml\<close> as one format family and the parser reads both as YAML.
\<close>

theorem compare_yaml_yml_rejected:
  "checkIfBothFilesAreOfSameType ''a.yaml'' ''b.yml'' = Inl FileCompareError
   \<and> compare w ''a.yaml'' ''b.yml'' options =
       [ConsoleError ''Something went wrong: [FileCompareError: Cannot compare dissimilar file]'',
        ProcessExit 1]"
  by (simp add: concrete_run_defs)

subsection \<open>An empty document\<close>

text \<open>
  C4. In the concrete directory, with \<^verbatim>\<open>--keys\<close>, the run on \<^verbatim>\<open>empty.env\<close> and
  \<^verbatim>\<open>a.env\<close> reports that \<^verbatim>\<open>empty.env\<close> is empty and then goes on to compute and
  print the key differences, although the specification, and the comment at the call
  of \<^verbatim>\<open>checkIfAnyEnvironmentObjectIsEmpty\<close>, have the run stop after the report.
\<close>

theorem compare_one_empty_goes_on:
  "compare demo_world ''empty.env'' ''a.env'' keys_only =
     [ExistsSync ''/cwd/empty.env'', ReadFileSync ''/cwd/empty.env'', DotenvParse [],
      ExistsSync ''/cwd/a.env'', ReadFileSync ''/cwd/a.env'', DotenvParse ''FOO=1'',
      ConsoleLog ''file empty.env is empty.'',
      PrintKeyDifferences \<lparr> missingKeysInFirstConfigFile = [''FOO''],
                            missingKeysInSecondConfigFile = [] \<rparr>]"
  by (simp add: concrete_run_defs compareEnvKeys_def Set_new_def Set_add_def Set_has_def)

subsection \<open>A path that does not exist\<close>

text \<open>
  In the concrete directory \<^verbatim>\<open>c.env\<close> does not exist. The run on \<^verbatim>\<open>a.env\<close>
  and \<^verbatim>\<open>c.env\<close> reads and parses \<^verbatim>\<open>a.env\<close> before it finds that out.
\<close>

theorem compare_second_missing_reads_first:
  "\<not> fs_existsSync demo_world (path_resolve demo_world ''c.env'')
   \<and> compare demo_world ''a.env'' ''c.env'' keys_only =
     [ExistsSync ''/cwd/a.env'', ReadFileSync ''/cwd/a.env'', DotenvParse ''FOO=1'',
      ExistsSync ''/cwd/c.env'',
      ConsoleError ''Something went wrong: [FileNotFoundError: File Not Found - File: /cwd/c.env]'',
      ProcessExit 1]"
  by (simp add: concrete_run_defs)

text \<open>
  C5, amended. For every run whose two paths have the same extension: if the first path
  does not resolve to an existing file, the run fails with \<^verbatim>\<open>FileNotFoundError\<close>
  before any file is read or parsed; if the first file is validated, read and parsed
  and the second path does not resolve to an existing file, the run fails with
  \<^verbatim>\<open>FileNotFoundError\<close> for the second path after the first file has been read and
  parsed.
\<close>

theorem compare_missing_file:
  assumes "extname f1 = extname f2"
  shows "(\<not> fs_existsSync w (path_resolve w f1) \<longrightarrow>
            compare w f1 f2 options =
              [ExistsSync (path_resolve w f1),
               ConsoleError (''Something went wrong: [FileNotFoundError: File Not Found - File: ''
                             @ path_resolve w f1 @ '']''),
               ProcessExit 1])
       \<and> (parseFile w f1 = (t1, Inr A) \<and> \<not> fs_existsSync w (path_resolve w f2) \<longrightarrow>
            ReadFileSync (path_resolve w f1) \<in> set t1
            \<and> compare w f1 f2 options =
                t1 @ [ExistsSync (path_resolve w f2),
                      ConsoleError (''Something went wrong: [FileNotFoundError: File Not Found - File: ''
                                    @ path_resolve w f2 @ '']''),
                      ProcessExit 1])"
proof (intro conjI impI)
  assume "\<not> fs_existsSync w (path_resolve w f1)"
  then show "compare w f1 f2 options =
              [ExistsSync (path_resolve w f1),
               ConsoleError (''Something went wrong: [FileNotFoundError: File Not Found - File: ''
                             @ path_resolve w f1 @ '']''),
               ProcessExit 1]"
    using assms by (simp add: compare_def compare_first_fails parseFile_missing)
next
  assume h: "parseFile w f1 = (t1, Inr A) \<and> \<not> fs_existsSync w (path_resolve w f2)"
  then show "ReadFileSync (path_resolve w f1) \<in> set t1"
    by (simp add: parseFile_reads)
  from h have "compareBody w f1 f2 options =
      (t1 @ [ExistsSync (path_resolve w f2)], Inl (FileNotFoundError (path_resolve w f2)))"
    using assms compare_second_fails [of f1 f2 w t1 A] parseFile_missing [of w f2] by simp
  then show "compare w f1 f2 options =
                t1 @ [ExistsSync (path_resolve w f2),
                      ConsoleError (''Something went wrong: [FileNotFoundError: File Not Found - File: ''
                                    @ path_resolve w f2 @ '']''),
                      ProcessExit 1]"
    by (simp add: compare_def)
qed

theorem compare_missing_file_witness:
  "extname ''c.env'' = extname ''a.env''
   \<and> \<not> fs_existsSync demo_world (path_resolve demo_world ''c.env'')
   \<and> compare demo_world ''c.env'' ''a.env'' keys_only =
       [ExistsSync ''/cwd/c.env'',
        ConsoleError ''Something went wrong: [FileNotFoundError: File Not Found - File: /cwd/c.env]'',
        ProcessExit 1]
   \<and> parseFile demo_world ''a.env'' =
       ([ExistsSync ''/cwd/a.env'', ReadFileSync ''/cwd/a.env'', DotenvParse ''FOO=1''],
        Inr \<lparr> own = [(''FOO'', Str ''1'')], proto = ObjectPrototype \<rparr>)
   \<and> compare demo_world ''a.env'' ''c.env'' keys_only =
       [ExistsSync ''/cwd/a.env'', ReadFileSync ''/cwd/a.env'', DotenvParse ''FOO=1'',
        ExistsSync ''/cwd/c.env'',
        ConsoleError ''Something went wrong: [FileNotFoundError: File Not Found - File: /cwd/c.env]'',
        ProcessExit 1]"
proof -
  have r: "path_resolve demo_world ''c.env'' = ''/cwd/c.env''"
    by (simp add: demo_world_def)
  have e1: "extname ''c.env'' = extname ''a.env''" and e2: "extname ''a.env'' = extname ''c.env''"
    by (simp_all add: extname_env)
  show ?thesis
    using compare_missing_file [OF e1, where w = demo_world and options = keys_only]
          compare_missing_file [OF e2, where w = demo_world and options = keys_only
            and ?t1.0 = "[ExistsSync ''/cwd/a.env'', ReadFileSync ''/cwd/a.env'', DotenvParse ''FOO=1'']"
            and A = "\<lparr> own = [(''FOO'', Str ''1'')], proto = ObjectPrototype \<rparr>"]
          demo_parse_a_env demo_missing_c_env e1 r
    by simp
qed

subsection \<open>A text that does not parse\<close>

text \<open>
  In the concrete directory \<^verbatim>\<open>broken.yaml\<close> is not valid YAML. The run reports
  the exception of the YAML parser as an unknown error.
\<close>

theorem compare_yaml_syntax_error_unknown:
  "compare demo_world ''broken.yaml'' ''a.yaml'' keys_only =
     [ExistsSync ''/cwd/broken.yaml'', ReadFileSync ''/cwd/broken.yaml'', YamlLoad ''FOO: [1'',
      ConsoleError ''An unknown error occurred: [YAMLException: unexpected end of the stream]'',
      ProcessExit 1]"
  by (simp add: concrete_run_defs)

text \<open>
  C8, amended. For every run whose two paths have the same extension and in which
  \<^verbatim>\<open>yaml.load\<close> throws on the text of a YAML input file (the first file, or the
  second after the first was parsed): the run reports the thrown error on the
  unknown-error path, as \<^verbatim>\<open>An unknown error occurred: [...]\<close> with the parser's own
  message, and ends the process with exit code 1. The program has no error kind of
  its own for a text that does not parse.
\<close>

theorem compare_yaml_load_throws:
  assumes "extname f1 = extname f2"
  shows "(fs_existsSync w (path_resolve w f1)
          \<and> (extname (path_resolve w f1) = ''.yaml'' \<or> extname (path_resolve w f1) = ''.yml'')
          \<and> fs_readFileSync w (path_resolve w f1) = Inr content
          \<and> yaml_load w content = Inl msg \<longrightarrow>
            compare w f1 f2 options =
              [ExistsSync (path_resolve w f1), ReadFileSync (path_resolve w f1), YamlLoad content,
               ConsoleError (''An unknown error occurred: ['' @ msg @ '']''),
               ProcessExit 1])
       \<and> (parseFile w f1 = (t1, Inr A)
          \<and> fs_existsSync w (path_resolve w f2)
          \<and> (extname (path_resolve w f2) = ''.yaml'' \<or> extname (path_resolve w f2) = ''.yml'')
          \<and> fs_readFileSync w (path_resolve w f2) = Inr content
          \<and> yaml_load w content = Inl msg \<longrightarrow>
            compare w f1 f2 options =
              t1 @ [ExistsSync (path_resolve w f2), ReadFileSync (path_resolve w f2), YamlLoad content,
                    ConsoleError (''An unknown error occurred: ['' @ msg @ '']''),
                    ProcessExit 1])"
proof (intro conjI impI)
  assume "fs_existsSync w (path_resolve w f1)
          \<and> (extname (path_resolve w f1) = ''.yaml'' \<or> extname (path_resolve w f1) = ''.yml'')
          \<and> fs_readFileSync w (path_resolve w f1) = Inr content
          \<and> yaml_load w content = Inl msg"
  then have "parseFile w f1 =
     ([ExistsSync (path_resolve w f1), ReadFileSync (path_resolve w f1), YamlLoad content],
      Inl (OtherError msg))"
    by (simp add: parseFile_yaml_throws)
  then have "compareBody w f1 f2 options =
     ([ExistsSync (path_resolve w f1), ReadFileSync (path_resolve w f1), YamlLoad content],
      Inl (OtherError msg))"
    using assms by (rule compare_first_fails [rotated])
  then show "compare w f1 f2 options =
              [ExistsSync (path_resolve w f1), ReadFileSync (path_resolve w f1), YamlLoad content,
               ConsoleError (''An unknown error occurred: ['' @ msg @ '']''),
               ProcessExit 1]"
    by (simp add: compare_def)
next
  assume h: "parseFile w f1 = (t1, Inr A)
          \<and> fs_existsSync w (path_resolve w f2)
          \<and> (extname (path_resolve w f2) = ''.yaml'' \<or> extname (path_resolve w f2) = ''.yml'')
          \<and> fs_readFileSync w (path_resolve w f2) = Inr content
          \<and> yaml_load w content = Inl msg"
  then have "parseFile w f2 =
     ([ExistsSync (path_resolve w f2), ReadFileSync (path_resolve w f2), YamlLoad content],
      Inl (OtherError msg))"
    by (simp add: parseFile_yaml_throws)
  with h assms have "compareBody w f1 f2 options =
     (t1 @ [ExistsSync (path_resolve w f2), ReadFileSync (path_resolve w f2), YamlLoad content],
      Inl (OtherError msg))"
    by (simp add: compare_second_fails)
  then show "compare w f1 f2 options =
              t1 @ [ExistsSync (path_resolve w f2), ReadFileSync (path_resolve w f2), YamlLoad content,
                    ConsoleError (''An unknown error occurred: ['' @ msg @ '']''),
                    ProcessExit 1]"
    by (simp add: compare_def)
qed

theorem compare_yaml_load_throws_witness:
  "extname ''broken.yaml'' = extname ''a.yaml''
   \<and> fs_existsSync demo_world ''/cwd/broken.yaml''
   \<and> extname ''/cwd/broken.yaml'' = ''.yaml''
   \<and> fs_readFileSync demo_world ''/cwd/broken.yaml'' = Inr ''FOO: [1''
   \<and> yaml_load demo_world ''FOO: [1'' = Inl ''YAMLException: unexpected end of the stream''
   \<and> compare demo_world ''broken.yaml'' ''a.yaml'' keys_only =
       [ExistsSync ''/cwd/broken.yaml'', ReadFileSync ''/cwd/broken.yaml'', YamlLoad ''FOO: [1'',
        ConsoleError ''An unknown error occurred: [YAMLException: unexpected end of the stream]'',
        ProcessExit 1]
   \<and> compare demo_world ''a.yaml'' ''broken.yaml'' keys_only =
       [ExistsSync ''/cwd/a.yaml'', ReadFileSync ''/cwd/a.yaml'', YamlLoad ''FOO: 1'',
        ExistsSync ''/cwd/broken.yaml'', ReadFileSync ''/cwd/broken.yaml'', YamlLoad ''FOO: [1'',
        ConsoleError ''An unknown error occurred: [YAMLException: unexpected end of the stream]'',
        ProcessExit 1]"
proof -
  have r: "path_resolve demo_world ''broken.yaml'' = ''/cwd/broken.yaml''"
    by (simp add: demo_world_def)
  have e: "extname ''broken.yaml'' = extname ''a.yaml''" "extname ''a.yaml'' = extname ''broken.yaml''"
       "extname ''/cwd/broken.yaml'' = ''.yaml''"
    by (simp_all add: extname_def basename_part_def)
  have f: "fs_existsSync demo_world ''/cwd/broken.yaml''"
       "fs_readFileSync demo_world ''/cwd/broken.yaml'' = Inr ''FOO: [1''"
       "yaml_load demo_world ''FOO: [1'' = Inl ''YAMLException: unexpected end of the stream''"
    by (simp_all add: demo_world_def demo_files_def)
  show ?thesis
    using compare_yaml_load_throws [OF e(1), where w = demo_world and options = keys_only
            and content = "''FOO: [1''" and msg = "''YAMLException: unexpected end of the stream''"]
          compare_yaml_load_throws [OF e(2), where w = demo_world and options = keys_only
            and content = "''FOO: [1''" and msg = "''YAMLException: unexpected end of the stream''"
            and ?t1.0 = "[ExistsSync ''/cwd/a.yaml'', ReadFileSync ''/cwd/a.yaml'', YamlLoad ''FOO: 1'']"
            and A = "\<lparr> own = [(''FOO'', Num 1)], proto = ObjectPrototype \<rparr>"]
          demo_parse_a_yaml r e f
    by simp
qed

subsection \<open>The choice of the comparison mode\<close>

text \<open>
  C9. In every run with the \<^verbatim>\<open>--keys\<close> flag set, whatever the \<^verbatim>\<open>--values\<close> flag,
  nothing of the value mode is printed, and when both files are validated and parsed
  the run ends with the print of the key comparison and nothing after it. In every run
  without the \<^verbatim>\<open>--keys\<close> flag nothing of the key mode is printed. So no run shows
  the output of both modes.
\<close>

theorem compare_keys_precedence:
  "(keys_flag options \<longrightarrow> filter isValueModeOutput (compare w f1 f2 options) = [])
   \<and> (\<not> keys_flag options \<longrightarrow> filter isKeyModeOutput (compare w f1 f2 options) = [])
   \<and> (keys_flag options \<and> extname f1 = extname f2
        \<and> parseFile w f1 = (t1, Inr A) \<and> parseFile w f2 = (t2, Inr B) \<longrightarrow>
          compare w f1 f2 options =
            t1 @ t2 @ checkIfAnyEnvironmentObjectIsEmpty f1 f2 A B @
            [PrintKeyDifferences (compareEnvKeys (Object_keys A) (Object_keys B))])"
proof (intro conjI impI)
  assume "keys_flag options"
  then have "filter isValueModeOutput (modeOutput options f1 f2 A B) = []" for A B
    by (simp add: modeOutput_def)
  then show "filter isValueModeOutput (compare w f1 f2 options) = []"
    by (intro compare_mode_filter isValueModeOutput_isOutput checkEmpty_no_value_output) simp_all
next
  assume "\<not> keys_flag options"
  then have "filter isKeyModeOutput (modeOutput options f1 f2 A B) = []" for A B
    by (simp add: modeOutput_def Let_def)
  then show "filter isKeyModeOutput (compare w f1 f2 options) = []"
    by (intro compare_mode_filter isKeyModeOutput_isOutput checkEmpty_no_key_output) simp_all
next
  assume "keys_flag options \<and> extname f1 = extname f2
        \<and> parseFile w f1 = (t1, Inr A) \<and> parseFile w f2 = (t2, Inr B)"
  then show "compare w f1 f2 options =
            t1 @ t2 @ checkIfAnyEnvironmentObjectIsEmpty f1 f2 A B @
            [PrintKeyDifferences (compareEnvKeys (Object_keys A) (Object_keys B))]"
    by (simp add: compare_def compareBody_parsed modeOutput_def)
qed

theorem compare_keys_precedence_witness:
  "keys_flag keys_and_values \<and> values_flag keys_and_values
   \<and> filter isValueModeOutput (compare demo_world ''a.env'' ''b.env'' keys_and_values) = []
   \<and> compare demo_world ''a.env'' ''b.env'' keys_and_values =
       [ExistsSync ''/cwd/a.env'', ReadFileSync ''/cwd/a.env'', DotenvParse ''FOO=1'',
        ExistsSync ''/cwd/b.env'', ReadFileSync ''/cwd/b.env'', DotenvParse ''FOO=2'',
        PrintKeyDifferences \<lparr> missingKeysInFirstConfigFile = [],
                              missingKeysInSecondConfigFile = [] \<rparr>]
   \<and> \<not> keys_flag values_only
   \<and> filter isKeyModeOutput (compare demo_world ''a.env'' ''b.env'' values_only) = []"
proof -
  have k: "keys_flag keys_and_values" "values_flag keys_and_values" "\<not> keys_flag values_only"
    by (simp_all add: keys_and_values_def values_only_def)
  have e: "extname ''a.env'' = extname ''b.env''"
    by (simp add: extname_env)
  show ?thesis
    using compare_keys_precedence [where w = demo_world and ?f1.0 = "''a.env''"
            and ?f2.0 = "''b.env''" and A = "\<lparr> own = [(''FOO'', Str ''1'')], proto = ObjectPrototype \<rparr>"
            and B = "\<lparr> own = [(''FOO'', Str ''2'')], proto = ObjectPrototype \<rparr>"
            and ?t1.0 = "[ExistsSync ''/cwd/a.env'', ReadFileSync ''/cwd/a.env'', DotenvParse ''FOO=1'']"
            and ?t2.0 = "[ExistsSync ''/cwd/b.env'', ReadFileSync ''/cwd/b.env'', DotenvParse ''FOO=2'']"
            and options = keys_and_values]
          compare_keys_precedence [where w = demo_world and ?f1.0 = "''a.env''"
            and ?f2.0 = "''b.env''" and options = values_only]
          k e demo_parse_a_env demo_parse_b_env
    by (simp add: checkIfAnyEnvironmentObjectIsEmpty_def isEmpty_def Object_keys_def ownKeys_def
          compareEnvKeys_def Set_new_def Set_add_def Set_has_def)
qed

text \<open>
  C10. In every run with neither flag set, after both files are validated and parsed
  and neither document is empty, there is no comparison: the run does nothing beyond
  the file and parser calls, writes nothing, and the process ends with code 0.
\<close>

theorem compare_no_flags:
  assumes "\<not> keys_flag options" and "\<not> values_flag options"
    and "extname f1 = extname f2"
    and "parseFile w f1 = (t1, Inr A)" and "parseFile w f2 = (t2, Inr B)"
    and "\<not> isEmpty A" and "\<not> isEmpty B"
  shows "compare w f1 f2 options = t1 @ t2
       \<and> filter isOutput (compare w f1 f2 options) = []
       \<and> exitCode (compare w f1 f2 options) = 0"
proof -
  have run: "compare w f1 f2 options = t1 @ t2"
    using assms
    by (simp add: compare_def compareBody_parsed modeOutput_def
          checkIfAnyEnvironmentObjectIsEmpty_def)
  have quiet: "filter isOutput (t1 @ t2) = []"
    using assms(4,5) by (simp add: parseFile_no_output)
  have "exitCode t = 0" if "filter isOutput t = []" for t
    using that
  proof (induction t)
    case Nil
    then show ?case by simp
  next
    case (Cons e t)
    then show ?case by (cases e) (simp_all split: if_splits)
  qed
  from this [OF quiet] have "exitCode (t1 @ t2) = 0" .
  with run quiet show ?thesis by simp
qed

theorem compare_no_flags_witness:
  "\<not> keys_flag no_flags \<and> \<not> values_flag no_flags
   \<and> compare demo_world ''a.env'' ''b.env'' no_flags =
       [ExistsSync ''/cwd/a.env'', ReadFileSync ''/cwd/a.env'', DotenvParse ''FOO=1'',
        ExistsSync ''/cwd/b.env'', ReadFileSync ''/cwd/b.env'', DotenvParse ''FOO=2'']
   \<and> filter isOutput (compare demo_world ''a.env'' ''b.env'' no_flags) = []
   \<and> exitCode (compare demo_world ''a.env'' ''b.env'' no_flags) = 0"
proof -
  have k: "\<not> keys_flag no_flags" "\<not> values_flag no_flags"
    by (simp_all add: no_flags_def)
  have e: "extname ''a.env'' = extname ''b.env''"
    by (simp add: extname_env)
  have n: "\<not> isEmpty \<lparr> own = [(''FOO'', Str ''1'')], proto = ObjectPrototype \<rparr>" "\<not> isEmpty \<lparr> own = [(''FOO'', Str ''2'')], proto = ObjectPrototype \<rparr>"
    by (simp_all add: isEmpty_def Object_keys_def ownKeys_def)
  show ?thesis
    using compare_no_flags [OF k e demo_parse_a_env demo_parse_b_env n] k
    by simp
qed

end
